theory Spec2Isabelle
  imports Main
begin

section \<open>Strings\<close>

text \<open>
  A Python \<open>str\<close> is modelled as a \<open>string\<close>: a list of characters with code points
  \<open>0..255\<close> (Latin-1). On this range \<open>str.lower()\<close> maps \<open>A..Z\<close> and the accented
  capitals \<open>0xC0..0xDE\<close> (without the multiplication sign \<open>0xD7\<close>) to the character
  32 places later and leaves every other character alone; \<open>str.strip()\<close> removes the
  characters for which \<open>str.isspace()\<close> holds from both ends.
\<close>

definition lower_char :: "char \<Rightarrow> char" where
  "lower_char c =
     (let n = (of_char c :: nat)
      in if (65 \<le> n \<and> n \<le> 90) \<or> (192 \<le> n \<and> n \<le> 222 \<and> n \<noteq> 215)
         then char_of (n + 32) else c)"

definition lower :: "string \<Rightarrow> string" where
  "lower s = map lower_char s"

definition isspace :: "char \<Rightarrow> bool" where
  "isspace c =
     (let n = (of_char c :: nat)
      in (9 \<le> n \<and> n \<le> 13) \<or> (28 \<le> n \<and> n \<le> 32) \<or> n = 133 \<or> n = 160)"

definition strip :: "string \<Rightarrow> string" where
  "strip s = rev (dropWhile isspace (rev (dropWhile isspace s)))"

text \<open>\<open>s.startswith(m)\<close>, and the substring test \<open>m in s\<close>.\<close>

fun startswith :: "string \<Rightarrow> string \<Rightarrow> bool" where
  "startswith s [] = True"
| "startswith [] (c # m) = False"
| "startswith (x # s) (c # m) = (x = c \<and> startswith s m)"

fun str_contains :: "string \<Rightarrow> string \<Rightarrow> bool" where
  "str_contains [] m = (m = [])"
| "str_contains (x # s) m = (startswith (x # s) m \<or> str_contains s m)"

text \<open>\<open>sep.join(xs)\<close>.\<close>

fun join :: "string \<Rightarrow> string list \<Rightarrow> string" where
  "join sep [] = []"
| "join sep [x] = x"
| "join sep (x # y # ys) = x @ sep @ join sep (y # ys)"

section \<open>The relevance classifier\<close>

definition search_indicators :: "string list" where
  "search_indicators =
     [''latest'', ''recent'', ''current'', ''today'', ''news'', ''upcoming'', ''future'',
      ''cricket'', ''match'', ''schedule'', ''tariff'', ''search'', ''when'', ''dates'',
      ''world cup'', ''asia cup'', ''olympics'', ''election'', ''weather'', ''stock'']"

text \<open>
  \<open>any(indicator in t for indicator in indicators)\<close>: the generator is consumed from the
  left and \<open>any\<close> returns at the first indicator found in \<open>t\<close>.
\<close>

fun any_indicator :: "string list \<Rightarrow> string \<Rightarrow> bool" where
  "any_indicator [] t = False"
| "any_indicator (i # is) t = (if str_contains t i then True else any_indicator is t)"

definition needs_search :: "string \<Rightarrow> bool" where
  "needs_search text = any_indicator search_indicators (lower text)"


section \<open>Exceptions, results and effects\<close>

text \<open>
  The exceptions the program meets. \<open>WaitTimeoutError\<close> and \<open>UnknownValueError\<close> are the
  speech library's, \<open>Exception\<close> stands for every other subclass of Python's
  \<open>Exception\<close> and carries \<open>str(e)\<close>. \<open>KeyboardInterrupt\<close> is not a subclass of
  \<open>Exception\<close>: an \<open>except Exception\<close> clause lets it pass.
\<close>

datatype exn = WaitTimeoutError | UnknownValueError | Exception string | KeyboardInterrupt

fun str_of :: "exn \<Rightarrow> string" where
  "str_of WaitTimeoutError = ''listening timed out while waiting for phrase to start''"
| "str_of UnknownValueError = []"
| "str_of (Exception msg) = msg"
| "str_of KeyboardInterrupt = []"

definition is_Exception :: "exn \<Rightarrow> bool" where
  "is_Exception x = (x \<noteq> KeyboardInterrupt)"

datatype 'a res = Ret 'a | Raise exn

text \<open>
  What a call does to the outside world, in order: a line printed (the pictograph that
  opens most of the source's messages is left out of the text), a line read from the
  terminal, a capture attempt on a microphone source, a search request, a request to the
  language model (system message and prompt), and a sentence given to the speech engine.
\<close>

datatype event =
    Print string
  | ReadLine
  | Capture nat
  | Post string
  | Invoke string string
  | Say string

type_synonym 'a io = "'a res \<times> event list"

definition ret :: "'a \<Rightarrow> 'a io" where
  "ret x = (Ret x, [])"

definition raise :: "exn \<Rightarrow> 'a io" where
  "raise x = (Raise x, [])"

definition print :: "string \<Rightarrow> unit io" where
  "print s = (Ret (), [Print s])"

definition effect :: "event \<Rightarrow> unit io" where
  "effect ev = (Ret (), [ev])"

text \<open>Sequencing: the second statement runs only if the first did not raise.\<close>

fun io_bind :: "'a io \<Rightarrow> ('a \<Rightarrow> 'b io) \<Rightarrow> 'b io" where
  "io_bind (Ret x, es) f = (case f x of (r, es') \<Rightarrow> (r, es @ es'))"
| "io_bind (Raise x, es) f = (Raise x, es)"

definition io_then :: "unit io \<Rightarrow> 'b io \<Rightarrow> 'b io" where
  "io_then m n = io_bind m (\<lambda>_. n)"

text \<open>
  \<open>try: m except ...\<close>: the handler answers \<open>None\<close> for an exception that none of its
  clauses catches, which then propagates.
\<close>

fun try_except :: "'a io \<Rightarrow> (exn \<Rightarrow> 'a io option) \<Rightarrow> 'a io" where
  "try_except (Ret x, es) h = (Ret x, es)"
| "try_except (Raise x, es) h =
     (case h x of None \<Rightarrow> (Raise x, es) | Some (r, es') \<Rightarrow> (r, es @ es'))"

definition nl :: char where
  "nl = CHR 0x0A"

section \<open>The environment of one turn\<close>

datatype json =
    JNull
  | JBool bool
  | JNum int
  | JFloat int int
  | JStr string
  | JArr "json list"
  | JObj "(string \<times> json) list"

text \<open>
  A parsed JSON document as Python holds it: \<open>JObj\<close> lists the items of a \<open>dict\<close>
  (looked up with \<open>map_of\<close>), \<open>JNum n\<close> is the \<open>int\<close> \<open>n\<close> and \<open>JFloat m k\<close> the
  finite \<open>float\<close> of value \<open>m * 2 ^ k\<close> (the code only tests a number for being zero).
\<close>

datatype stdin_event = Line string | EOF | CtrlC

text \<open>
  One capture attempt on a microphone source: text was recognised; opening the device
  failed; adjusting or listening failed; no speech started before the timeout; the
  recogniser could not understand the audio; the recognition request failed; or the user
  pressed Ctrl-C meanwhile.
\<close>

datatype capture =
    Heard string
  | OpenError string
  | DeviceError string
  | NoSpeech
  | Unintelligible
  | RequestError string
  | CaptureCtrlC

datatype http_reply = Body json | BadBody string | TransportError string | PostCtrlC

datatype llm_reply = Content string | LLMError string | InvokeCtrlC

datatype tts_reply = Spoken | TtsError string | SayCtrlC

record turn_env =
  stdin :: stdin_event
  mic_ctor :: "string option"
  mic :: "nat \<Rightarrow> capture"
  serper_key :: "string option"
  http :: http_reply
  today :: string
  llm :: llm_reply
  tts_say :: tts_reply
  tts_farewell :: tts_reply

text \<open>
  \<open>stdin\<close> is what \<open>input()\<close> meets, \<open>mic k\<close> the outcome of the capture on the
  \<open>k\<close>-th microphone source (the first variant has one source, number 0),
  \<open>mic_ctor\<close> the error, if any, of building the second variant's list of sources,
  \<open>serper_key\<close> the environment variable \<open>SERPER_API_KEY\<close>, \<open>http\<close> the search
  service's answer, \<open>today\<close> the formatted date, \<open>llm\<close> the language model's answer,
  \<open>tts_say\<close> the outcome of the speech engine's call in the loop body (the farewell
  after an exit word, or the response) and \<open>tts_farewell\<close> that of the call in the
  loop's interrupt handler. Ctrl-C is modelled at the calls that block: reading the
  line, a capture, the search request, the request to the model, the speech engine.
\<close>

text \<open>
  The repository holds the program twice: \<open>complete_voice_chatbot.py\<close> (\<open>Base\<close>) and
  \<open>complete_voice_chatbot_conda.py\<close> (\<open>Conda\<close>). They differ in \<open>listen\<close>, in the
  constructor's microphone probe, in some messages, and in \<open>get_input\<close>, which only
  the first has. The fields of \<open>session\<close> are the attributes of the object whose
  value the methods branch on or pass on; the object with all its attributes is the
  record \<open>CompleteVoiceChatbot\<close> further down.
\<close>

datatype variant = Base | Conda

record session =
  voice_input :: bool
  tts :: bool
  api_key :: string

section \<open>Python's operations on parsed JSON\<close>

text \<open>
  Each operation of \<open>search_web\<close> on the response, with the exception it raises on a
  value of the wrong type (the texts are CPython's; they only reach the console).
\<close>

definition quoted :: "string \<Rightarrow> string" where
  "quoted s = CHR 0x27 # s @ [CHR 0x27]"

fun type_name :: "json \<Rightarrow> string" where
  "type_name JNull = ''NoneType''"
| "type_name (JBool b) = ''bool''"
| "type_name (JNum n) = ''int''"
| "type_name (JFloat m k) = ''float''"
| "type_name (JStr s) = ''str''"
| "type_name (JArr xs) = ''list''"
| "type_name (JObj kvs) = ''dict''"

fun truthy :: "json \<Rightarrow> bool" where
  "truthy JNull = False"
| "truthy (JBool b) = b"
| "truthy (JNum n) = (n \<noteq> 0)"
| "truthy (JFloat m k) = (m \<noteq> 0)"
| "truthy (JStr s) = (s \<noteq> [])"
| "truthy (JArr xs) = (xs \<noteq> [])"
| "truthy (JObj kvs) = (kvs \<noteq> [])"

text \<open>\<open>k in v\<close> for a string \<open>k\<close>.\<close>

fun py_in :: "string \<Rightarrow> json \<Rightarrow> bool res" where
  "py_in k (JObj kvs) = Ret (k \<in> set (map fst kvs))"
| "py_in k (JArr xs) = Ret (JStr k \<in> set xs)"
| "py_in k (JStr s) = Ret (str_contains s k)"
| "py_in k v = Raise (Exception (''argument of type '' @ quoted (type_name v) @ '' is not iterable''))"

text \<open>\<open>v[k]\<close> for a string \<open>k\<close>.\<close>

fun py_getitem :: "json \<Rightarrow> string \<Rightarrow> json res" where
  "py_getitem (JObj kvs) k =
     (case map_of kvs k of Some x \<Rightarrow> Ret x | None \<Rightarrow> Raise (Exception (quoted k)))"
| "py_getitem (JArr xs) k = Raise (Exception ''list indices must be integers or slices, not str'')"
| "py_getitem (JStr s) k = Raise (Exception (''string indices must be integers, not '' @ quoted ''str''))"
| "py_getitem v k = Raise (Exception (quoted (type_name v) @ '' object is not subscriptable''))"

text \<open>The items that \<open>for result in v[:2]\<close> visits.\<close>

fun py_slice2 :: "json \<Rightarrow> json list res" where
  "py_slice2 (JArr xs) = Ret (take 2 xs)"
| "py_slice2 (JStr s) = Ret (map (\<lambda>c. JStr [c]) (take 2 s))"
| "py_slice2 (JObj kvs) = Raise (Exception (''unhashable type: '' @ quoted ''slice''))"
| "py_slice2 v = Raise (Exception (quoted (type_name v) @ '' object is not subscriptable''))"

text \<open>\<open>v.get(k, d)\<close>.\<close>

fun py_get :: "json \<Rightarrow> string \<Rightarrow> json \<Rightarrow> json res" where
  "py_get (JObj kvs) k d = Ret (case map_of kvs k of Some x \<Rightarrow> x | None \<Rightarrow> d)"
| "py_get v k d = Raise (Exception (quoted (type_name v) @ '' object has no attribute '' @ quoted ''get''))"

text \<open>\<open>sep.join(xs)\<close> raises \<open>TypeError\<close> at the first item that is not a \<open>str\<close>.\<close>

fun strs_of :: "json list \<Rightarrow> nat \<Rightarrow> string list res" where
  "strs_of [] i = Ret []"
| "strs_of (JStr s # xs) i =
     (case strs_of xs (Suc i) of Ret ss \<Rightarrow> Ret (s # ss) | Raise x \<Rightarrow> Raise x)"
| "strs_of (v # xs) i =
     Raise (Exception (''sequence item '' @ [char_of (48 + i)] @ '': expected str instance, ''
       @ type_name v @ '' found''))"

definition py_join :: "string \<Rightarrow> json list \<Rightarrow> string res" where
  "py_join sep xs = (case strs_of xs 0 of Ret ss \<Rightarrow> Ret (join sep ss) | Raise x \<Rightarrow> Raise x)"

fun res_bind :: "'a res \<Rightarrow> ('a \<Rightarrow> 'b res) \<Rightarrow> 'b res" where
  "res_bind (Ret x) f = f x"
| "res_bind (Raise x) f = Raise x"

section \<open>The web augmenter: \<open>search_web\<close>\<close>

text \<open>
  \<open>requests.post(url, headers, json={"q": query, "num": 3}, timeout=10)\<close> followed by
  \<open>response.json()\<close>.
\<close>

definition post :: "turn_env \<Rightarrow> string \<Rightarrow> json io" where
  "post e query =
     io_then (effect (Post query))
       (case http e of
          Body d \<Rightarrow> ret d
        | BadBody msg \<Rightarrow> raise (Exception msg)
        | TransportError msg \<Rightarrow> raise (Exception msg)
        | PostCtrlC \<Rightarrow> raise KeyboardInterrupt)"

text \<open>The block \<open>if 'knowledgeGraph' in data: ...\<close>, started with \<open>results = []\<close>.\<close>

definition knowledge_part :: "json \<Rightarrow> json list res" where
  "knowledge_part data =
     res_bind (py_in ''knowledgeGraph'' data) (\<lambda>has_kg.
       if has_kg then
         res_bind (py_getitem data ''knowledgeGraph'') (\<lambda>kg.
           res_bind (py_in ''description'' kg) (\<lambda>has_d.
             if has_d then res_bind (py_getitem kg ''description'') (\<lambda>d. Ret [d])
             else Ret []))
       else Ret [])"

text \<open>The body of \<open>for result in data['organic'][:2]\<close>, over the items left to visit.\<close>

fun organic_loop :: "json list \<Rightarrow> json list \<Rightarrow> json list res" where
  "organic_loop results [] = Ret results"
| "organic_loop results (result # rest) =
     res_bind (py_get result ''snippet'' (JStr [])) (\<lambda>snippet.
       organic_loop (if truthy snippet then results @ [snippet] else results) rest)"

definition organic_part :: "json \<Rightarrow> json list \<Rightarrow> json list res" where
  "organic_part data results =
     res_bind (py_in ''organic'' data) (\<lambda>has_org.
       if has_org then
         res_bind (py_getitem data ''organic'') (\<lambda>org.
           res_bind (py_slice2 org) (\<lambda>items. organic_loop results items))
       else Ret results)"

definition collect_results :: "json \<Rightarrow> string option res" where
  "collect_results data =
     res_bind (knowledge_part data) (\<lambda>results.
       res_bind (organic_part data results) (\<lambda>results.
         if results \<noteq> [] then res_bind (py_join '' '' results) (\<lambda>s. Ret (Some s))
         else Ret None))"

definition search_web :: "turn_env \<Rightarrow> string \<Rightarrow> string option io" where
  "search_web e query =
     try_except
       (case serper_key e of
          None \<Rightarrow> ret None
        | Some k \<Rightarrow>
            if k = [] then ret None
            else io_bind (post e query) (\<lambda>data. (collect_results data, [])))
       (\<lambda>x. if is_Exception x
            then Some (io_then (print (''Search error: '' @ str_of x)) (ret None))
            else None)"

section \<open>The output renderer: \<open>speak\<close>\<close>

text \<open>\<open>self.tts_engine.say(text); self.tts_engine.runAndWait()\<close>.\<close>

definition say :: "tts_reply \<Rightarrow> string \<Rightarrow> unit io" where
  "say r text =
     io_then (effect (Say text))
       (case r of
          Spoken \<Rightarrow> ret ()
        | TtsError msg \<Rightarrow> raise (Exception msg)
        | SayCtrlC \<Rightarrow> raise KeyboardInterrupt)"

definition speak :: "session \<Rightarrow> tts_reply \<Rightarrow> string \<Rightarrow> unit io" where
  "speak s r text =
     io_then (print (''Bot: '' @ text))
       (if tts s
        then try_except (say r text)
               (\<lambda>x. if is_Exception x then Some (print (''Speech error: '' @ str_of x)) else None)
        else ret ())"

section \<open>The response generator: \<open>get_response\<close>\<close>

definition instruction :: string where
  "instruction = ''Provide a conversational response (50-80 words) suitable for voice interaction.''"

definition prompt_of :: "string \<Rightarrow> string option \<Rightarrow> string" where
  "prompt_of question web_info =
     (case web_info of
        Some w \<Rightarrow>
          if w \<noteq> []
          then ''Question: '' @ question @ [nl, nl] @ ''Current information: '' @ w @ [nl, nl]
                 @ instruction
          else ''Question: '' @ question @ [nl, nl] @ instruction
      | None \<Rightarrow> ''Question: '' @ question @ [nl, nl] @ instruction)"

definition system_message :: "string \<Rightarrow> string" where
  "system_message date =
     ''You are a helpful voice assistant. Today is '' @ date
       @ ''. Keep responses concise and conversational.''"

text \<open>\<open>self.chatbot.invoke(messages).content\<close>.\<close>

definition invoke :: "turn_env \<Rightarrow> string \<Rightarrow> string io" where
  "invoke e prompt =
     io_then (effect (Invoke (system_message (today e)) prompt))
       (case llm e of
          Content c \<Rightarrow> ret c
        | LLMError msg \<Rightarrow> raise (Exception msg)
        | InvokeCtrlC \<Rightarrow> raise KeyboardInterrupt)"

text \<open>
  The first statements of the \<open>try\<close> block: \<open>web_info = None\<close>, replaced by the
  search's result if the question needs one.
\<close>

definition augment :: "turn_env \<Rightarrow> string \<Rightarrow> string option io" where
  "augment e question =
     (if needs_search question
      then io_then (print ''Searching for current information...'') (search_web e question)
      else ret None)"

definition get_response :: "turn_env \<Rightarrow> string \<Rightarrow> string io" where
  "get_response e question =
     try_except
       (io_bind (augment e question) (\<lambda>web_info. invoke e (prompt_of question web_info)))
       (\<lambda>x. if is_Exception x then Some (ret (''Sorry, I had an error: '' @ str_of x)) else None)"

section \<open>The input resolver: \<open>listen\<close>, \<open>get_text_input\<close>, \<open>get_input\<close>\<close>

definition digit :: "nat \<Rightarrow> string" where
  "digit i = [char_of (48 + i)]"

text \<open>
  What follows the opening of the microphone source: \<open>recognizer.listen\<close>, then
  \<open>recognizer.recognize_google\<close>, then \<open>return text.strip()\<close>.
\<close>

definition recognise :: "capture \<Rightarrow> string io" where
  "recognise c =
     (case c of
        Heard text \<Rightarrow>
          io_then (print ''Converting speech to text...'')
            (io_then (print (''You said: '' @ text)) (ret (strip text)))
      | OpenError msg \<Rightarrow> raise (Exception msg)
      | DeviceError msg \<Rightarrow> raise (Exception msg)
      | NoSpeech \<Rightarrow> raise WaitTimeoutError
      | Unintelligible \<Rightarrow> io_then (print ''Converting speech to text...'') (raise UnknownValueError)
      | RequestError msg \<Rightarrow> io_then (print ''Converting speech to text...'') (raise (Exception msg))
      | CaptureCtrlC \<Rightarrow> raise KeyboardInterrupt)"

text \<open>
  One capture attempt on source \<open>i\<close>. The second variant announces the source once the
  device is open.
\<close>

definition capture_on :: "variant \<Rightarrow> turn_env \<Rightarrow> nat \<Rightarrow> string io" where
  "capture_on v e i =
     io_then (effect (Capture i))
       (case mic e i of
          OpenError msg \<Rightarrow> raise (Exception msg)
        | c \<Rightarrow>
            io_then
              (if v = Conda then print (''Trying microphone source '' @ digit i @ ''...'') else ret ())
              (recognise c))"

text \<open>
  The second variant's \<open>for i, mic_source in enumerate(microphone_sources)\<close>. One
  iteration is the inner \<open>try\<close> with its \<open>except Exception\<close>
  (\<open>microphone_sources\<close> holds the positions \<open>i\<close> of the four sources: the default
  device and the devices 0, 1, 2), which answers
  \<open>Some text\<close> when the function returns the text and \<open>None\<close> when the loop moves on
  to the next source.
\<close>

definition microphone_sources :: "nat list" where
  "microphone_sources = [0, 1, 2, 3]"

definition attempt :: "turn_env \<Rightarrow> nat \<Rightarrow> string option io" where
  "attempt e i =
     try_except (io_bind (capture_on Conda e i) (\<lambda>text. ret (Some text)))
       (\<lambda>x. if is_Exception x
            then Some (io_then
                   (print (''Microphone '' @ digit i @ '' failed: '' @ take 50 (str_of x) @ ''...''))
                   (ret None))
            else None)"

fun try_sources :: "turn_env \<Rightarrow> nat list \<Rightarrow> string option io" where
  "try_sources e [] = io_then (print ''All microphone sources failed'') (ret None)"
| "try_sources e (i # rest) =
     (case attempt e i of
        (Ret (Some text), evs) \<Rightarrow> (Ret (Some text), evs)
      | (Ret None, evs) \<Rightarrow> (case try_sources e rest of (r, evs') \<Rightarrow> (r, evs @ evs'))
      | (Raise x, evs) \<Rightarrow> (Raise x, evs))"

definition listen_handler :: "variant \<Rightarrow> exn \<Rightarrow> string option io option" where
  "listen_handler v x =
     (case x of
        WaitTimeoutError \<Rightarrow>
          Some (io_then
                  (print (if v = Conda then ''No speech detected (timeout)'' else ''No speech detected''))
                  (ret None))
      | UnknownValueError \<Rightarrow> Some (io_then (print ''Could not understand speech'') (ret None))
      | Exception msg \<Rightarrow> Some (io_then (print (''Speech recognition error: '' @ msg)) (ret None))
      | KeyboardInterrupt \<Rightarrow> None)"

text \<open>\<open>listen\<close> answers \<open>None\<close> for Python's \<open>None\<close> and \<open>Some text\<close> for a string.\<close>

definition listen :: "variant \<Rightarrow> session \<Rightarrow> turn_env \<Rightarrow> string option io" where
  "listen v s e =
     (if \<not> voice_input s then ret None
      else
        try_except
          (case v of
             Base \<Rightarrow>
               io_then (print (nl # ''Listening... (speak now or press Ctrl+C for text input)''))
                 (io_bind (capture_on Base e 0) (\<lambda>text. ret (Some text)))
           | Conda \<Rightarrow>
               io_then (print (nl # ''Listening... (speak now)''))
                 (case mic_ctor e of
                    Some msg \<Rightarrow> raise (Exception msg)
                  | None \<Rightarrow> try_sources e microphone_sources))
          (listen_handler v))"

text \<open>\<open>input()\<close>: the line without its newline, \<open>EOFError\<close> at the end of the input.\<close>

definition input :: "turn_env \<Rightarrow> string io" where
  "input e =
     io_then (effect ReadLine)
       (case stdin e of
          Line l \<Rightarrow> ret l
        | EOF \<Rightarrow> raise (Exception ''EOF when reading a line'')
        | CtrlC \<Rightarrow> raise KeyboardInterrupt)"

definition get_text_input :: "turn_env \<Rightarrow> string io" where
  "get_text_input e =
     io_then (print ''Type your message: '') (io_bind (input e) (\<lambda>l. ret (strip l)))"

text \<open>The truth value of \<open>listen\<close>'s result: neither \<open>None\<close> nor the empty string.\<close>

fun heard :: "string option \<Rightarrow> bool" where
  "heard None = False"
| "heard (Some text) = (text \<noteq> [])"

text \<open>\<open>get_input\<close> exists in the first variant only.\<close>

definition get_input :: "session \<Rightarrow> turn_env \<Rightarrow> bool \<Rightarrow> string io" where
  "get_input s e prefer_voice =
     (if prefer_voice \<and> voice_input s
      then io_bind (listen Base s e) (\<lambda>speech_input.
             if heard speech_input then ret (the speech_input)
             else io_then (print ''Switching to text input...'') (get_text_input e))
      else get_text_input e)"

section \<open>The session loop: \<open>run_interactive\<close>\<close>

definition exit_words :: "string list" where
  "exit_words = [''quit'', ''exit'', ''stop'', ''goodbye'', ''bye'']"

datatype signal = Continue | Break

text \<open>The response is printed, and spoken when speech output is on.\<close>

definition render :: "session \<Rightarrow> turn_env \<Rightarrow> string \<Rightarrow> unit io" where
  "render s e response =
     io_then (print (nl # ''Bot: '' @ response))
       (if tts s
        then try_except (say (tts_say e) response)
               (\<lambda>x. if is_Exception x
                    then Some (print (''Speech output failed: '' @ str_of x)) else None)
        else ret ())"

text \<open>The end of the loop body: from \<open>Processing your question...\<close> to the rule of dashes.\<close>

definition process :: "session \<Rightarrow> turn_env \<Rightarrow> string \<Rightarrow> signal io" where
  "process s e user_input =
     io_then (print ''Processing your question...'')
       (io_bind (get_response e user_input) (\<lambda>response.
          io_then (render s e response)
            (io_then (print (replicate 50 (CHR ''-''))) (ret Continue))))"

text \<open>The body of \<open>while True: try: ...\<close>, one iteration.\<close>

definition body :: "variant \<Rightarrow> session \<Rightarrow> turn_env \<Rightarrow> signal io" where
  "body v s e =
     io_then (print (nl # ''You: ''))
       (io_bind (input e) (\<lambda>line.
          let user_input = strip line in
          if user_input = [] then
            io_then (print ''Please enter a question or type 'quit' to exit'') (ret Continue)
          else if lower user_input \<in> set exit_words then
            io_then (speak s (tts_say e) ''Goodbye! Have a great day!'')
              (io_then (print ''Goodbye!'') (ret Break))
          else if lower user_input = ''voice'' then
            (if voice_input s then
               io_then (print ''Switching to voice input - speak now...'')
                 (io_bind (listen v s e) (\<lambda>voice_input.
                    if heard voice_input then
                      io_then (print (''Voice input received: '' @ the voice_input))
                        (process s e (the voice_input))
                    else
                      io_then (print ''Voice input failed, please type your question'')
                        (ret Continue)))
             else
               io_then
                 (print (if v = Conda
                         then ''Voice input not available - PyAudio/microphone issues''
                         else ''Voice input not available (microphone/PyAudio issues)''))
                 (io_then (print ''Please type your question instead:'') (ret Continue)))
          else process s e user_input))"

text \<open>The loop's two handlers, \<open>except KeyboardInterrupt\<close> and \<open>except Exception as e\<close>.\<close>

definition handlers :: "session \<Rightarrow> turn_env \<Rightarrow> exn \<Rightarrow> signal io option" where
  "handlers s e x =
     (case x of
        KeyboardInterrupt \<Rightarrow>
          Some (io_then (speak s (tts_farewell e) ''Goodbye!'')
                  (io_then (print (nl # ''Goodbye!'')) (ret Break)))
      | _ \<Rightarrow>
          Some (io_then (print (''Error: '' @ str_of x))
                  (io_then (print ''Please try again or type 'quit' to exit'') (ret Continue))))"

text \<open>One iteration of \<open>while True\<close>.\<close>

definition turn :: "variant \<Rightarrow> session \<Rightarrow> turn_env \<Rightarrow> signal io" where
  "turn v s e = try_except (body v s e) (handlers s e)"

text \<open>
  The loop over a script of turn environments. \<open>AwaitingInput\<close>: the script is used up
  and the loop waits at \<open>input()\<close>; \<open>Ended\<close>: the loop was left by \<open>break\<close>;
  \<open>Escaped x\<close>: the exception \<open>x\<close> left the loop (raised inside a handler).
\<close>

datatype status = AwaitingInput | Ended | Escaped exn

fun loop :: "variant \<Rightarrow> session \<Rightarrow> turn_env list \<Rightarrow> status \<times> event list" where
  "loop v s [] = (AwaitingInput, [])"
| "loop v s (e # es) =
     (case turn v s e of
        (Ret Continue, evs) \<Rightarrow> (case loop v s es of (st, evs') \<Rightarrow> (st, evs @ evs'))
      | (Ret Break, evs) \<Rightarrow> (Ended, evs)
      | (Raise x, evs) \<Rightarrow> (Escaped x, evs))"

definition prints :: "string list \<Rightarrow> unit io" where
  "prints ls = (Ret (), map Print ls)"

definition banner :: "variant \<Rightarrow> session \<Rightarrow> string list" where
  "banner v s =
     [nl # ''Complete Voice Chatbot - Interactive Mode'', replicate 50 (CHR ''='')]
     @ (if voice_input s
        then [if v = Conda then ''Voice input available - type 'voice' to use microphone''
              else ''Voice input available - you can speak'']
        else [])
     @ [''Text input always available - just type your questions'']
     @ [if tts s then ''Speech output enabled - bot will speak responses'' else ''Text output mode'']
     @ [''Type 'quit' to exit'']
     @ (if v = Conda
        then (if voice_input s then [''Type 'voice' to try voice input''] else [])
        else [''Type 'voice' to try voice input (if available)''])
     @ [replicate 50 (CHR ''-'')]"

text \<open>
  \<open>run_interactive\<close>: the banner, the greeting (spoken with outcome \<open>g\<close>, outside the
  loop's \<open>try\<close>), then the loop.
\<close>

definition run_interactive ::
  "variant \<Rightarrow> session \<Rightarrow> tts_reply \<Rightarrow> turn_env list \<Rightarrow> status \<times> event list" where
  "run_interactive v s g es =
     (case io_then (prints (banner v s))
             (speak s g ''Hello! I'm your AI assistant. What would you like to know?'') of
        (Ret u, evs) \<Rightarrow> (case loop v s es of (st, evs') \<Rightarrow> (st, evs @ evs'))
      | (Raise x, evs) \<Rightarrow> (Escaped x, evs))"

section \<open>The one-shot command: \<open>run_single_command\<close>\<close>

definition run_single_command :: "session \<Rightarrow> turn_env \<Rightarrow> string \<Rightarrow> string io" where
  "run_single_command s e command =
     io_then (prints [''Processing: '' @ command, ''Getting response...''])
       (io_bind (get_response e command) (\<lambda>response.
          io_then (print (nl # ''Bot: '' @ response))
            (io_then
               (if tts s
                then try_except
                       (io_then (say (tts_say e) response) (print ''Response spoken successfully!''))
                       (\<lambda>x. if is_Exception x
                            then Some (print (''Speech output failed: '' @ str_of x)) else None)
                else ret ())
               (ret response))))"

section \<open>Start-up: the constructor and \<open>main\<close>\<close>

text \<open>
  The outcome of probing the microphone in the constructor: fine; an exception before the
  first message of the \<open>try\<close> block; or one after it.
\<close>

datatype probe = Ready | CtorError string | TestError string

record startup_env =
  VOICE_INPUT_AVAILABLE :: bool
  TTS_AVAILABLE :: bool
  mic_probe :: probe
  tts_probe :: "string option"
  GOOGLE_API_KEY :: "string option"

text \<open>
  \<open>VOICE_INPUT_AVAILABLE\<close> and \<open>TTS_AVAILABLE\<close> are the module's globals, set when the
  optional libraries were imported; \<open>tts_probe\<close> is the error, if any, of creating
  the speech engine; \<open>GOOGLE_API_KEY\<close> is the environment variable of that name.
  Creating the client object \<open>ChatGoogleGenerativeAI\<close> from the key sends no request
  and is taken to succeed.
\<close>

definition init_voice :: "variant \<Rightarrow> startup_env \<Rightarrow> bool io" where
  "init_voice v st =
     (if VOICE_INPUT_AVAILABLE st then
        try_except
          (case mic_probe st of
             CtorError msg \<Rightarrow> raise (Exception msg)
           | TestError msg \<Rightarrow>
               io_then
                 (print (if v = Conda then ''Speech recognition initialized successfully''
                         else ''Speech recognition enabled''))
                 (raise (Exception msg))
           | Ready \<Rightarrow>
               io_then
                 (print (if v = Conda then ''Speech recognition initialized successfully''
                         else ''Speech recognition enabled''))
                 (io_then (if v = Conda then print ''Microphone objects can be created'' else ret ())
                    (ret True)))
          (\<lambda>x. if is_Exception x
               then Some (io_then
                      (print ((if v = Conda then ''Microphone initialization error: ''
                               else ''Microphone error: '') @ str_of x))
                      (ret False))
               else None)
      else ret False)"

definition init_tts :: "variant \<Rightarrow> startup_env \<Rightarrow> bool io" where
  "init_tts v st =
     (if TTS_AVAILABLE st then
        try_except
          (case tts_probe st of
             Some msg \<Rightarrow> raise (Exception msg)
           | None \<Rightarrow>
               io_then
                 (print (if v = Conda then ''Text-to-speech initialized successfully''
                         else ''Text-to-speech enabled''))
                 (ret True))
          (\<lambda>x. if is_Exception x
               then Some (io_then
                      (print ((if v = Conda then ''TTS initialization error: '' else ''TTS error: '')
                              @ str_of x))
                      (ret False))
               else None)
      else ret False)"

definition status_report :: "variant \<Rightarrow> bool \<Rightarrow> bool \<Rightarrow> string" where
  "status_report v vi t =
     (case v of
        Base \<Rightarrow>
          if \<not> vi \<and> \<not> t then ''Running in text-only mode''
          else if \<not> vi then ''Text input + speech output mode''
          else if \<not> t then ''Voice input + text output mode''
          else ''Full voice interaction mode''
      | Conda \<Rightarrow>
          if vi \<and> t then ''Full voice interaction mode enabled!''
          else if \<not> vi \<and> t then ''Text input + speech output mode''
          else if vi \<and> \<not> t then ''Voice input + text output mode''
          else ''Text-only mode'')"

text \<open>The constructor \<open>CompleteVoiceChatbot()\<close>.\<close>

definition init :: "variant \<Rightarrow> startup_env \<Rightarrow> session io" where
  "init v st =
     io_bind (init_voice v st) (\<lambda>vi.
       io_bind (init_tts v st) (\<lambda>t.
         io_then (print (status_report v vi t))
           (case GOOGLE_API_KEY st of
              None \<Rightarrow> raise (Exception ''GOOGLE_API_KEY not found in .env file'')
            | Some k \<Rightarrow>
                if k = [] then raise (Exception ''GOOGLE_API_KEY not found in .env file'')
                else
                  io_then (print ''Complete Voice Chatbot ready!'')
                    (ret \<lparr>voice_input = vi, tts = t, api_key = k\<rparr>))))"

text \<open>
  The world a run of the program meets: the start-up probes, the outcome of speaking the
  greeting, the replies met by a one-shot command, and the script of the interactive
  loop's turns.
\<close>

record world =
  startup :: startup_env
  greeting :: tts_reply
  command_env :: turn_env
  script :: "turn_env list"

definition tips :: "variant \<Rightarrow> exn \<Rightarrow> event list" where
  "tips v x =
     map Print
       [''Error: '' @ str_of x,
        nl # ''Make sure you have:'',
        ''  - GOOGLE_API_KEY in .env file'',
        ''  - Internet connection'',
        if v = Conda then ''  - Run with: python complete_voice_chatbot_conda.py''
        else ''  - Microphone (optional)'']"

text \<open>
  \<open>main\<close>, given \<open>sys.argv\<close>. \<open>Ended\<close>: \<open>main\<close> returned; \<open>Escaped x\<close>: \<open>x\<close> left
  \<open>main\<close>, whose only handler is \<open>except Exception\<close>; \<open>AwaitingInput\<close>: the
  interactive loop is still running at the end of the script.
\<close>

definition guarded :: "variant \<Rightarrow> status \<times> event list \<Rightarrow> status \<times> event list" where
  "guarded v r =
     (case r of
        (Escaped x, evs) \<Rightarrow> if is_Exception x then (Ended, evs @ tips v x) else (Escaped x, evs)
      | (st, evs) \<Rightarrow> (st, evs))"

definition opening_line :: "variant \<Rightarrow> string" where
  "opening_line v =
     (if v = Conda then ''Initializing Complete Voice Chatbot with Microphone Support...''
      else ''Initializing Complete Voice Chatbot...'')"

definition main :: "variant \<Rightarrow> world \<Rightarrow> string list \<Rightarrow> status \<times> event list" where
  "main v w argv =
     guarded v
       (case io_then (print (opening_line v)) (init v (startup w)) of
          (Raise x, evs) \<Rightarrow> (Escaped x, evs)
        | (Ret self, evs) \<Rightarrow>
            if length argv > 1 then
              (case run_single_command self (command_env w) (join '' '' (tl argv)) of
                 (Ret response, evs') \<Rightarrow> (Ended, evs @ evs')
               | (Raise x, evs') \<Rightarrow> (Escaped x, evs @ evs'))
            else
              (case run_interactive v self (greeting w) (script w) of
                 (st, evs') \<Rightarrow> (st, evs @ evs')))"

section \<open>The session object\<close>

text \<open>
  The object \<open>self\<close> with all the attributes the two files ever set: the capability
  flags and the key of \<open>session\<close>, and the references \<open>self.recognizer\<close>,
  \<open>self.microphone\<close> (first file only), \<open>self.tts_engine\<close> and \<open>self.chatbot\<close>
  (\<open>None\<close>: the attribute was never set). There is no other attribute: no list of
  past questions or answers. A method is run on an object and gives back the object as
  it leaves it, also when it raises; the loop hands each turn the object that the turn
  before gave back.

  A reference is a number here. What a library keeps inside the object referred to (the
  recogniser's energy threshold, which \<open>adjust_for_ambient_noise\<close> and \<open>listen\<close> set;
  the speech engine's queue) is not in the two files and not in the record: what the
  outside world answers in a turn is given turn by turn, by \<open>turn_env\<close>. The methods
  are those of an object that the constructor returned, where an attribute is set
  whenever a method reads it: \<open>recognizer\<close> and \<open>microphone\<close> under \<open>voice_input\<close>,
  \<open>tts_engine\<close> under \<open>tts\<close>, \<open>chatbot\<close> always.
\<close>

record CompleteVoiceChatbot = session +
  recognizer :: "nat option"
  microphone :: "nat option"
  tts_engine :: "nat option"
  chatbot :: "nat option"

type_synonym 'a self_io = "CompleteVoiceChatbot \<Rightarrow> 'a io \<times> CompleteVoiceChatbot"

text \<open>
  A statement that assigns no attribute of \<open>self\<close>. Every statement of the methods below
  is one: the assignments \<open>self.x = ...\<close> of the two files are all in \<open>__init__\<close>.
\<close>

definition stmt :: "'a io \<Rightarrow> 'a self_io" where
  "stmt m self = (m, self)"

text \<open>Sequencing, \<open>if\<close> on the object, and \<open>try ... except\<close>, with the object threaded.\<close>

definition m_bind :: "'a self_io \<Rightarrow> ('a \<Rightarrow> 'b self_io) \<Rightarrow> 'b self_io" where
  "m_bind m f self =
     (case m self of
        ((Ret x, es), self') \<Rightarrow>
          (case f x self' of ((r, es'), self'') \<Rightarrow> ((r, es @ es'), self''))
      | ((Raise x, es), self') \<Rightarrow> ((Raise x, es), self'))"

definition m_then :: "unit self_io \<Rightarrow> 'b self_io \<Rightarrow> 'b self_io" where
  "m_then m n = m_bind m (\<lambda>_. n)"

definition m_if :: "(CompleteVoiceChatbot \<Rightarrow> bool) \<Rightarrow> 'a self_io \<Rightarrow> 'a self_io \<Rightarrow> 'a self_io" where
  "m_if c a b self = (if c self then a self else b self)"

definition m_try :: "'a self_io \<Rightarrow> (exn \<Rightarrow> 'a self_io option) \<Rightarrow> 'a self_io" where
  "m_try m h self =
     (case m self of
        ((Ret x, es), self') \<Rightarrow> ((Ret x, es), self')
      | ((Raise x, es), self') \<Rightarrow>
          (case h x of
             None \<Rightarrow> ((Raise x, es), self')
           | Some n \<Rightarrow> (case n self' of ((r, es'), self'') \<Rightarrow> ((r, es @ es'), self''))))"

text \<open>The methods that a turn runs, as methods of the object.\<close>

definition speak_self :: "tts_reply \<Rightarrow> string \<Rightarrow> unit self_io" where
  "speak_self r text =
     m_then (stmt (print (''Bot: '' @ text)))
       (m_if tts
          (m_try (stmt (say r text))
             (\<lambda>x. if is_Exception x then Some (stmt (print (''Speech error: '' @ str_of x)))
                  else None))
          (stmt (ret ())))"

definition listen_self :: "variant \<Rightarrow> turn_env \<Rightarrow> string option self_io" where
  "listen_self v e =
     m_if (\<lambda>self. \<not> voice_input self) (stmt (ret None))
       (m_try
          (case v of
             Base \<Rightarrow>
               m_then (stmt (print (nl # ''Listening... (speak now or press Ctrl+C for text input)'')))
                 (m_bind (stmt (capture_on Base e 0)) (\<lambda>text. stmt (ret (Some text))))
           | Conda \<Rightarrow>
               m_then (stmt (print (nl # ''Listening... (speak now)'')))
                 (case mic_ctor e of
                    Some msg \<Rightarrow> stmt (raise (Exception msg))
                  | None \<Rightarrow> stmt (try_sources e microphone_sources)))
          (\<lambda>x. map_option stmt (listen_handler v x)))"

definition get_response_self :: "turn_env \<Rightarrow> string \<Rightarrow> string self_io" where
  "get_response_self e question =
     m_try
       (m_bind (stmt (augment e question))
          (\<lambda>web_info. stmt (invoke e (prompt_of question web_info))))
       (\<lambda>x. if is_Exception x then Some (stmt (ret (''Sorry, I had an error: '' @ str_of x)))
            else None)"

definition render_self :: "turn_env \<Rightarrow> string \<Rightarrow> unit self_io" where
  "render_self e response =
     m_then (stmt (print (nl # ''Bot: '' @ response)))
       (m_if tts
          (m_try (stmt (say (tts_say e) response))
             (\<lambda>x. if is_Exception x
                  then Some (stmt (print (''Speech output failed: '' @ str_of x))) else None))
          (stmt (ret ())))"

definition process_self :: "turn_env \<Rightarrow> string \<Rightarrow> signal self_io" where
  "process_self e user_input =
     m_then (stmt (print ''Processing your question...''))
       (m_bind (get_response_self e user_input) (\<lambda>response.
          m_then (render_self e response)
            (m_then (stmt (print (replicate 50 (CHR ''-'')))) (stmt (ret Continue)))))"

definition body_self :: "variant \<Rightarrow> turn_env \<Rightarrow> signal self_io" where
  "body_self v e =
     m_then (stmt (print (nl # ''You: '')))
       (m_bind (stmt (input e)) (\<lambda>line.
          let user_input = strip line in
          if user_input = [] then
            m_then (stmt (print ''Please enter a question or type 'quit' to exit''))
              (stmt (ret Continue))
          else if lower user_input \<in> set exit_words then
            m_then (speak_self (tts_say e) ''Goodbye! Have a great day!'')
              (m_then (stmt (print ''Goodbye!'')) (stmt (ret Break)))
          else if lower user_input = ''voice'' then
            m_if voice_input
              (m_then (stmt (print ''Switching to voice input - speak now...''))
                 (m_bind (listen_self v e) (\<lambda>voice_input.
                    if heard voice_input then
                      m_then (stmt (print (''Voice input received: '' @ the voice_input)))
                        (process_self e (the voice_input))
                    else
                      m_then (stmt (print ''Voice input failed, please type your question''))
                        (stmt (ret Continue)))))
              (m_then
                 (stmt (print (if v = Conda
                               then ''Voice input not available - PyAudio/microphone issues''
                               else ''Voice input not available (microphone/PyAudio issues)'')))
                 (m_then (stmt (print ''Please type your question instead:'')) (stmt (ret Continue))))
          else process_self e user_input))"

definition handlers_self :: "turn_env \<Rightarrow> exn \<Rightarrow> signal self_io option" where
  "handlers_self e x =
     (case x of
        KeyboardInterrupt \<Rightarrow>
          Some (m_then (speak_self (tts_farewell e) ''Goodbye!'')
                  (m_then (stmt (print (nl # ''Goodbye!''))) (stmt (ret Break))))
      | _ \<Rightarrow>
          Some (m_then (stmt (print (''Error: '' @ str_of x)))
                  (m_then (stmt (print ''Please try again or type 'quit' to exit''))
                     (stmt (ret Continue)))))"

definition turn_self :: "variant \<Rightarrow> turn_env \<Rightarrow> signal self_io" where
  "turn_self v e = m_try (body_self v e) (handlers_self e)"

text \<open>The loop, each turn run on the object as the turn before left it.\<close>

fun loop_self ::
  "variant \<Rightarrow> turn_env list \<Rightarrow> CompleteVoiceChatbot
     \<Rightarrow> (status \<times> event list) \<times> CompleteVoiceChatbot" where
  "loop_self v [] self = ((AwaitingInput, []), self)"
| "loop_self v (e # es) self =
     (case turn_self v e self of
        ((Ret Continue, evs), self') \<Rightarrow>
          (case loop_self v es self' of ((st, evs'), self'') \<Rightarrow> ((st, evs @ evs'), self''))
      | ((Ret Break, evs), self') \<Rightarrow> ((Ended, evs), self')
      | ((Raise x, evs), self') \<Rightarrow> ((Escaped x, evs), self'))"

text \<open>The flags and the key of an object, as the functions of the sections above take them.\<close>

definition flags :: "CompleteVoiceChatbot \<Rightarrow> session" where
  "flags self = session.truncate self"

section \<open>The search response as the specification reads it\<close>

text \<open>
  The response format of the search service: an object whose optional field
  \<open>knowledgeGraph\<close> is an object with an optional string \<open>description\<close>, and whose
  optional field \<open>organic\<close> is an array of objects, each with an optional string
  \<open>snippet\<close>.
\<close>

fun field :: "string \<Rightarrow> json \<Rightarrow> json option" where
  "field k (JObj kvs) = map_of kvs k"
| "field k v = None"

fun opt_str :: "json option \<Rightarrow> bool" where
  "opt_str None = True"
| "opt_str (Some (JStr t)) = True"
| "opt_str (Some v) = False"

definition wf_result :: "json \<Rightarrow> bool" where
  "wf_result r = (case r of JObj kvs \<Rightarrow> opt_str (map_of kvs ''snippet'') | _ \<Rightarrow> False)"

definition wf_response :: "json \<Rightarrow> bool" where
  "wf_response data =
     (case data of
        JObj kvs \<Rightarrow>
          (case map_of kvs ''knowledgeGraph'' of
             None \<Rightarrow> True
           | Some (JObj kg) \<Rightarrow> opt_str (map_of kg ''description'')
           | Some v \<Rightarrow> False)
          \<and> (case map_of kvs ''organic'' of
               None \<Rightarrow> True
             | Some (JArr rs) \<Rightarrow> list_all wf_result rs
             | Some v \<Rightarrow> False)
      | _ \<Rightarrow> False)"

text \<open>
  The specification's description of the result: the knowledge-panel description if
  present, then the snippets of the first two organic results, empty ones skipped, joined
  with single spaces; absent if there is no fragment.
\<close>

definition spec_description :: "json \<Rightarrow> string list" where
  "spec_description data =
     (case field ''knowledgeGraph'' data of
        Some kg \<Rightarrow> (case field ''description'' kg of Some (JStr d) \<Rightarrow> [d] | _ \<Rightarrow> [])
      | None \<Rightarrow> [])"

definition spec_snippet :: "json \<Rightarrow> string" where
  "spec_snippet r = (case field ''snippet'' r of Some (JStr t) \<Rightarrow> t | _ \<Rightarrow> [])"

definition spec_snippets :: "json \<Rightarrow> string list" where
  "spec_snippets data =
     (case field ''organic'' data of
        Some (JArr rs) \<Rightarrow> filter (\<lambda>t. t \<noteq> []) (map spec_snippet (take 2 rs))
      | _ \<Rightarrow> [])"

definition spec_fragments :: "json \<Rightarrow> string list" where
  "spec_fragments data = spec_description data @ spec_snippets data"

definition spec_search_result :: "json \<Rightarrow> string option" where
  "spec_search_result data =
     (if spec_fragments data = [] then None else Some (join '' '' (spec_fragments data)))"

section \<open>Vocabulary of the properties\<close>

fun is_Capture :: "event \<Rightarrow> bool" where
  "is_Capture (Capture i) = True"
| "is_Capture ev = False"

fun is_Invoke :: "event \<Rightarrow> bool" where
  "is_Invoke (Invoke sys prompt) = True"
| "is_Invoke ev = False"

fun is_Print :: "event \<Rightarrow> bool" where
  "is_Print (Print l) = True"
| "is_Print ev = False"

text \<open>
  The failure modes of a capture: the device cannot be opened or read, no speech before
  the timeout, unintelligible audio, a failed recognition request.
\<close>

fun failure :: "capture \<Rightarrow> bool" where
  "failure (Heard text) = False"
| "failure CaptureCtrlC = False"
| "failure c = True"

text \<open>
  Every capture that \<open>listen\<close> attempts fails: the one source of the first variant; in
  the second variant the list of sources cannot be built, or each of the four fails.
\<close>

definition capture_fails :: "variant \<Rightarrow> turn_env \<Rightarrow> bool" where
  "capture_fails v e =
     (case v of
        Base \<Rightarrow> failure (mic e 0)
      | Conda \<Rightarrow> mic_ctor e \<noteq> None \<or> list_all (\<lambda>i. failure (mic e i)) microphone_sources)"


text \<open>No Ctrl-C while the turn's question is answered and rendered.\<close>

definition uninterrupted :: "turn_env \<Rightarrow> bool" where
  "uninterrupted e = (http e \<noteq> PostCtrlC \<and> llm e \<noteq> InvokeCtrlC \<and> tts_say e \<noteq> SayCtrlC)"

text \<open>No Ctrl-C at any point of the turn.\<close>

definition no_ctrl_c :: "turn_env \<Rightarrow> bool" where
  "no_ctrl_c e =
     (stdin e \<noteq> CtrlC \<and> list_all (\<lambda>i. mic e i \<noteq> CaptureCtrlC) microphone_sources \<and> uninterrupted e)"

text \<open>The typed line is an exit word, after trimming and lower-casing.\<close>

definition exit_typed :: "turn_env \<Rightarrow> bool" where
  "exit_typed e = (case stdin e of Line l \<Rightarrow> lower (strip l) \<in> set exit_words | _ \<Rightarrow> False)"

text \<open>What the language model's reply becomes in \<open>get_response\<close>.\<close>

fun reply_text :: "llm_reply \<Rightarrow> string" where
  "reply_text (Content c) = c"
| "reply_text (LLMError msg) = ''Sorry, I had an error: '' @ msg"
| "reply_text InvokeCtrlC = []"

text \<open>Pieces of the console trace that the properties name.\<close>

definition announce :: "variant \<Rightarrow> nat \<Rightarrow> event list" where
  "announce v i =
     (if v = Conda then [Print (''Trying microphone source '' @ digit i @ ''...'')] else [])"

definition asked :: "event list" where
  "asked = [Print (nl # ''You: ''), ReadLine]"

definition unavailable :: "variant \<Rightarrow> event list" where
  "unavailable v =
     [Print (if v = Conda then ''Voice input not available - PyAudio/microphone issues''
             else ''Voice input not available (microphone/PyAudio issues)''),
      Print ''Please type your question instead:'']"

text \<open>A method that leaves every object as it found it.\<close>

definition keeps :: "'a self_io \<Rightarrow> bool" where
  "keeps m = (\<forall>self. snd (m self) = self)"

section \<open>Example data\<close>

definition mock_response :: json where
  "mock_response =
     JObj [(''organic'',
           JArr [JObj [(''snippet'', JStr ''A'')], JObj [(''snippet'', JStr ''B'')],
                 JObj [(''snippet'', JStr ''C'')]])]"

definition demo_env :: turn_env where
  "demo_env =
     \<lparr>stdin = Line ''What is the weather today?'',
      mic_ctor = None,
      mic = (\<lambda>i. NoSpeech),
      serper_key = Some ''key'',
      http = Body mock_response,
      today = ''November 03, 2026'',
      llm = Content ''It is sunny today.'',
      tts_say = Spoken,
      tts_farewell = Spoken\<rparr>"

definition demo_session :: session where
  "demo_session = \<lparr>voice_input = True, tts = True, api_key = ''secret''\<rparr>"

definition demo_startup :: startup_env where
  "demo_startup =
     \<lparr>VOICE_INPUT_AVAILABLE = True, TTS_AVAILABLE = True, mic_probe = Ready, tts_probe = None,
      GOOGLE_API_KEY = Some ''secret''\<rparr>"

definition demo_world :: world where
  "demo_world =
     \<lparr>startup = demo_startup, greeting = Spoken, command_env = demo_env, script = [demo_env]\<rparr>"

text \<open>
  A turn in which the user types \<open>voice\<close> and the microphone hears \<open>spoken\<close>; one in
  which only the second microphone source hears something; one in which nothing is
  heard; a session without voice input.
\<close>

definition voice_env :: "string \<Rightarrow> turn_env" where
  "voice_env spoken = demo_env\<lparr>stdin := Line ''voice'', mic := (\<lambda>i. Heard spoken)\<rparr>"


definition silent_env :: turn_env where
  "silent_env = demo_env\<lparr>stdin := Line ''voice''\<rparr>"


definition demo_argv :: "string list" where
  "demo_argv = [''chatbot.py'', ''tell'', ''me'', ''a'', ''joke'']"

text \<open>An object with every attribute set, as the constructor leaves it when nothing fails.\<close>

definition demo_bot :: CompleteVoiceChatbot where
  "demo_bot =
     \<lparr>voice_input = True, tts = True, api_key = ''secret'',
      recognizer = Some 0, microphone = Some 1, tts_engine = Some 2, chatbot = Some 3\<rparr>"

section \<open>Substring search and the classifier\<close>

lemma startswith_iff: "startswith s m \<longleftrightarrow> (\<exists>ss. s = m @ ss)"
  by (induction s m rule: startswith.induct) auto

lemma str_contains_iff: "str_contains s m \<longleftrightarrow> (\<exists>ps ss. s = ps @ m @ ss)"
proof (induction s)
  case Nil
  then show ?case by auto
next
  case (Cons x s)
  show ?case
  proof
    assume "str_contains (x # s) m"
    then consider "startswith (x # s) m" | "str_contains s m" by auto
    then show "\<exists>ps ss. x # s = ps @ m @ ss"
    proof cases
      case 1
      then obtain ss where "x # s = m @ ss" using startswith_iff by blast
      then have "x # s = [] @ m @ ss" by simp
      then show ?thesis by blast
    next
      case 2
      then obtain ps ss where "s = ps @ m @ ss" using Cons.IH by blast
      then have "x # s = (x # ps) @ m @ ss" by simp
      then show ?thesis by blast
    qed
  next
    assume "\<exists>ps ss. x # s = ps @ m @ ss"
    then obtain ps ss where eq: "x # s = ps @ m @ ss" by blast
    show "str_contains (x # s) m"
    proof (cases ps)
      case Nil
      with eq have "startswith (x # s) m" using startswith_iff by auto
      then show ?thesis by simp
    next
      case (Cons p ps')
      with eq have "s = ps' @ m @ ss" by simp
      then have "str_contains s m" using Cons.IH by blast
      then show ?thesis by simp
    qed
  qed
qed

lemma any_indicator_iff: "any_indicator ms t \<longleftrightarrow> (\<exists>m \<in> set ms. str_contains t m)"
  by (induction ms) auto

lemma any_indicator_find:
  "any_indicator ms t = (case find (str_contains t) ms of None \<Rightarrow> False | Some m \<Rightarrow> True)"
  by (induction ms) auto

lemma lower_char_idem: "lower_char (lower_char c) = lower_char c"
proof -
  have "of_char (char_of (of_char c + 32 :: nat)) = (of_char c + 32 :: nat)"
    if "(of_char c :: nat) \<le> 222"
    using that by (simp add: of_char_of)
  then show ?thesis
    unfolding lower_char_def Let_def by auto
qed

lemma lower_idem: "lower (lower s) = lower s"
  by (simp add: lower_def lower_char_idem)

section \<open>Sequencing and exceptions\<close>

lemma io_then_Ret [simp]: "io_then (Ret u, es) n = (fst n, es @ snd n)"
  by (cases n) (simp add: io_then_def)

lemma io_then_Raise [simp]: "io_then (Raise x, es) n = (Raise x, es)"
  by (simp add: io_then_def)

lemma io_bind_Ret: "io_bind (Ret a, es) f = (fst (f a), es @ snd (f a))"
  by (cases "f a") simp

lemma is_Exception_simps [simp]:
  "is_Exception WaitTimeoutError" "is_Exception UnknownValueError"
  "is_Exception (Exception msg)" "\<not> is_Exception KeyboardInterrupt"
  by (simp_all add: is_Exception_def)

lemma res_bind_Raise_iff:
  "res_bind m f = Raise x \<longleftrightarrow> m = Raise x \<or> (\<exists>a. m = Ret a \<and> f a = Raise x)"
  by (cases m) auto

lemma py_in_exn: "py_in k v = Raise x \<Longrightarrow> is_Exception x"
  by (cases v) auto

lemma py_getitem_exn: "py_getitem v k = Raise x \<Longrightarrow> is_Exception x"
  by (cases v) (auto split: option.splits)

lemma py_slice2_exn: "py_slice2 v = Raise x \<Longrightarrow> is_Exception x"
  by (cases v) auto

lemma py_get_exn: "py_get v k d = Raise x \<Longrightarrow> is_Exception x"
  by (cases v) auto

lemma strs_of_exn: "strs_of xs i = Raise x \<Longrightarrow> is_Exception x"
  by (induction xs i rule: strs_of.induct) (auto split: res.splits)

lemma py_join_exn: "py_join sep xs = Raise x \<Longrightarrow> is_Exception x"
  by (auto simp: py_join_def split: res.splits dest: strs_of_exn)

lemma organic_loop_exn: "organic_loop rs items = Raise x \<Longrightarrow> is_Exception x"
  by (induction items arbitrary: rs) (auto simp: res_bind_Raise_iff dest: py_get_exn)

lemma knowledge_part_exn: "knowledge_part d = Raise x \<Longrightarrow> is_Exception x"
  by (auto simp: knowledge_part_def res_bind_Raise_iff split: if_splits
           dest: py_in_exn py_getitem_exn)

lemma organic_part_exn: "organic_part d rs = Raise x \<Longrightarrow> is_Exception x"
  by (auto simp: organic_part_def res_bind_Raise_iff split: if_splits
           dest: py_in_exn py_getitem_exn py_slice2_exn organic_loop_exn)

lemma collect_results_exn: "collect_results d = Raise x \<Longrightarrow> is_Exception x"
  by (auto simp: collect_results_def res_bind_Raise_iff split: if_splits
           dest: knowledge_part_exn organic_part_exn py_join_exn)

section \<open>The web augmenter on well-formed responses\<close>

lemma in_keys_iff: "k \<in> fst ` set kvs \<longleftrightarrow> map_of kvs k \<noteq> None"
  by (simp add: map_of_eq_None_iff)

lemma strs_of_JStr: "strs_of (map JStr ss) i = Ret ss"
  by (induction ss arbitrary: i) auto

lemma py_join_JStr: "py_join sep (map JStr ss) = Ret (join sep ss)"
  by (simp add: py_join_def strs_of_JStr)

lemma opt_str_cases:
  "opt_str v \<Longrightarrow> v = None \<or> (\<exists>t. v = Some (JStr t))"
  by (erule opt_str.elims) auto

lemma knowledge_part_wf:
  assumes "wf_response data"
  shows "knowledge_part data = Ret (map JStr (spec_description data))"
proof -
  from assms obtain kvs where data: "data = JObj kvs"
    by (cases data) (auto simp: wf_response_def)
  show ?thesis
  proof (cases "map_of kvs ''knowledgeGraph''")
    case None
    then show ?thesis
      by (simp add: data knowledge_part_def spec_description_def in_keys_iff)
  next
    case (Some kg)
    with assms data obtain kgs where kg: "kg = JObj kgs" and d: "opt_str (map_of kgs ''description'')"
      by (cases kg) (auto simp: wf_response_def)
    from opt_str_cases [OF d] show ?thesis
      by (auto simp: data Some kg knowledge_part_def spec_description_def in_keys_iff)
  qed
qed

lemma py_get_wf:
  assumes "wf_result r"
  shows "py_get r ''snippet'' (JStr []) = Ret (JStr (spec_snippet r))"
proof -
  from assms obtain kvs where r: "r = JObj kvs" and s: "opt_str (map_of kvs ''snippet'')"
    by (cases r) (auto simp: wf_result_def)
  from opt_str_cases [OF s] show ?thesis
    by (auto simp: r spec_snippet_def)
qed

lemma organic_loop_wf:
  "list_all wf_result items \<Longrightarrow>
   organic_loop rs items = Ret (rs @ map JStr (filter (\<lambda>t. t \<noteq> []) (map spec_snippet items)))"
  by (induction items arbitrary: rs) (simp_all add: py_get_wf)

lemma list_all_take: "list_all P xs \<Longrightarrow> list_all P (take n xs)"
  by (auto simp: list_all_iff dest: in_set_takeD)

lemma organic_part_wf:
  assumes "wf_response data"
  shows "organic_part data rs = Ret (rs @ map JStr (spec_snippets data))"
proof -
  from assms obtain kvs where data: "data = JObj kvs"
    by (cases data) (auto simp: wf_response_def)
  show ?thesis
  proof (cases "map_of kvs ''organic''")
    case None
    then show ?thesis
      by (simp add: data organic_part_def spec_snippets_def in_keys_iff)
  next
    case (Some org)
    with assms data obtain items where org: "org = JArr items" and wf: "list_all wf_result items"
      by (cases org) (auto simp: wf_response_def)
    from wf have "list_all wf_result (take 2 items)" by (rule list_all_take)
    then show ?thesis
      by (simp add: data Some org organic_part_def spec_snippets_def in_keys_iff organic_loop_wf)
  qed
qed

lemma collect_results_wf:
  "wf_response data \<Longrightarrow> collect_results data = Ret (spec_search_result data)"
proof -
  assume wf: "wf_response data"
  have "py_join '' '' (map JStr (spec_description data) @ map JStr (spec_snippets data))
        = Ret (join '' '' (spec_fragments data))"
    using py_join_JStr [of "'' ''" "spec_fragments data"] by (simp add: spec_fragments_def)
  then show ?thesis
    by (simp add: collect_results_def knowledge_part_wf [OF wf] organic_part_wf [OF wf]
          spec_search_result_def spec_fragments_def)
qed

lemma search_web_closed:
  "search_web e q =
     (case serper_key e of
        None \<Rightarrow> (Ret None, [])
      | Some k \<Rightarrow>
          if k = [] then (Ret None, [])
          else (case http e of
                  Body d \<Rightarrow>
                    (case collect_results d of
                       Ret r \<Rightarrow> (Ret r, [Post q])
                     | Raise x \<Rightarrow> (Ret None, [Post q, Print (''Search error: '' @ str_of x)]))
                | BadBody msg \<Rightarrow> (Ret None, [Post q, Print (''Search error: '' @ msg)])
                | TransportError msg \<Rightarrow> (Ret None, [Post q, Print (''Search error: '' @ msg)])
                | PostCtrlC \<Rightarrow> (Raise KeyboardInterrupt, [Post q])))"
  by (auto simp: search_web_def post_def ret_def raise_def print_def effect_def
      split: option.splits http_reply.splits res.splits dest: collect_results_exn)

section \<open>The renderer and the response generator\<close>

lemmas io_defs = ret_def raise_def print_def effect_def prints_def

lemma say_closed:
  "say r text =
     (case r of
        Spoken \<Rightarrow> (Ret (), [Say text])
      | TtsError msg \<Rightarrow> (Raise (Exception msg), [Say text])
      | SayCtrlC \<Rightarrow> (Raise KeyboardInterrupt, [Say text]))"
  by (simp add: say_def io_defs split: tts_reply.splits)

lemma speak_closed:
  "speak s r text =
     (if tts s then
        (case r of
           Spoken \<Rightarrow> (Ret (), [Print (''Bot: '' @ text), Say text])
         | TtsError msg \<Rightarrow>
             (Ret (), [Print (''Bot: '' @ text), Say text, Print (''Speech error: '' @ msg)])
         | SayCtrlC \<Rightarrow> (Raise KeyboardInterrupt, [Print (''Bot: '' @ text), Say text]))
      else (Ret (), [Print (''Bot: '' @ text)]))"
  by (simp add: speak_def say_closed io_defs split: tts_reply.splits)

lemma render_closed:
  "render s e response =
     (if tts s then
        (case tts_say e of
           Spoken \<Rightarrow> (Ret (), [Print (nl # ''Bot: '' @ response), Say response])
         | TtsError msg \<Rightarrow>
             (Ret (), [Print (nl # ''Bot: '' @ response), Say response,
                       Print (''Speech output failed: '' @ msg)])
         | SayCtrlC \<Rightarrow> (Raise KeyboardInterrupt, [Print (nl # ''Bot: '' @ response), Say response]))
      else (Ret (), [Print (nl # ''Bot: '' @ response)]))"
  by (simp add: render_def say_closed io_defs split: tts_reply.splits)

lemma invoke_closed:
  "invoke e prompt =
     (case llm e of
        Content c \<Rightarrow> (Ret c, [Invoke (system_message (today e)) prompt])
      | LLMError msg \<Rightarrow> (Raise (Exception msg), [Invoke (system_message (today e)) prompt])
      | InvokeCtrlC \<Rightarrow> (Raise KeyboardInterrupt, [Invoke (system_message (today e)) prompt]))"
  by (simp add: invoke_def io_defs split: llm_reply.splits)

lemma search_web_raises:
  "search_web e q = (Raise x, evs) \<Longrightarrow> x = KeyboardInterrupt \<and> http e = PostCtrlC"
  by (auto simp: search_web_closed split: option.splits if_splits http_reply.splits res.splits)

lemma search_web_events:
  "search_web e q = (r, evs) \<Longrightarrow> ev \<in> set evs \<Longrightarrow> ev = Post q \<or> is_Print ev"
  by (auto simp: search_web_closed split: option.splits if_splits http_reply.splits res.splits)

lemma augment_raises:
  "augment e q = (Raise x, evs) \<Longrightarrow> x = KeyboardInterrupt \<and> http e = PostCtrlC"
  by (cases "search_web e q")
     (auto simp: augment_def io_defs dest: search_web_raises split: if_splits)

lemma augment_events:
  "augment e q = (r, evs) \<Longrightarrow> ev \<in> set evs \<Longrightarrow> ev = Post q \<or> is_Print ev"
  by (cases "search_web e q")
     (auto simp: augment_def io_defs dest: search_web_events split: if_splits)

lemma augment_no_invoke:
  assumes "augment e q = (r, evs)"
  shows "filter is_Invoke evs = []"
proof -
  have "\<not> is_Invoke ev" if "ev \<in> set evs" for ev
    using augment_events [OF assms that] by (cases ev) auto
  then show ?thesis by (simp add: filter_empty_conv)
qed

lemma get_response_augment:
  "get_response e q =
     (case augment e q of
        (Raise x, evs) \<Rightarrow> (Raise x, evs)
      | (Ret w, evs) \<Rightarrow>
          (case llm e of
             Content c \<Rightarrow> (Ret c, evs @ [Invoke (system_message (today e)) (prompt_of q w)])
           | LLMError msg \<Rightarrow>
               (Ret (''Sorry, I had an error: '' @ msg),
                evs @ [Invoke (system_message (today e)) (prompt_of q w)])
           | InvokeCtrlC \<Rightarrow>
               (Raise KeyboardInterrupt, evs @ [Invoke (system_message (today e)) (prompt_of q w)])))"
proof (cases "augment e q")
  case (Pair r evs)
  show ?thesis
  proof (cases r)
    case (Ret w)
    with Pair show ?thesis
      by (simp add: get_response_def invoke_closed io_defs split: llm_reply.splits)
  next
    case (Raise x)
    with Pair have "x = KeyboardInterrupt" using augment_raises [of e q x evs] by simp
    with Pair Raise show ?thesis
      by (simp add: get_response_def)
  qed
qed

lemma get_response_raises:
  "get_response e q = (Raise x, evs) \<Longrightarrow>
   x = KeyboardInterrupt \<and> (http e = PostCtrlC \<or> llm e = InvokeCtrlC)"
  by (cases "augment e q")
     (auto simp: get_response_augment split: res.splits llm_reply.splits dest: augment_raises)

lemma get_response_returns:
  "http e \<noteq> PostCtrlC \<Longrightarrow> llm e \<noteq> InvokeCtrlC \<Longrightarrow>
   fst (get_response e q) = Ret (reply_text (llm e))"
  by (cases "augment e q")
     (auto simp: get_response_augment split: res.splits llm_reply.splits dest: augment_raises)

lemma get_response_events:
  "get_response e q = (r, evs) \<Longrightarrow> ev \<in> set evs \<Longrightarrow>
   ev = Post q \<or> is_Print ev \<or> is_Invoke ev"
  by (cases "augment e q")
     (auto simp: get_response_augment split: res.splits llm_reply.splits dest: augment_events)

lemma get_response_invoke_count:
  "length (filter is_Invoke (snd (get_response e q))) \<le> 1"
  by (cases "augment e q")
     (auto simp: get_response_augment split: res.splits llm_reply.splits dest: augment_no_invoke)

lemma get_response_invoke_once:
  "http e \<noteq> PostCtrlC \<Longrightarrow> length (filter is_Invoke (snd (get_response e q))) = 1"
  by (cases "augment e q")
     (auto simp: get_response_augment split: res.splits llm_reply.splits
           dest: augment_no_invoke augment_raises)

section \<open>Capture attempts\<close>

lemma capture_on_closed:
  "capture_on v e i =
     (case mic e i of
        Heard text \<Rightarrow>
          (Ret (strip text),
           Capture i # announce v i
             @ [Print ''Converting speech to text...'', Print (''You said: '' @ text)])
      | OpenError msg \<Rightarrow> (Raise (Exception msg), [Capture i])
      | DeviceError msg \<Rightarrow> (Raise (Exception msg), Capture i # announce v i)
      | NoSpeech \<Rightarrow> (Raise WaitTimeoutError, Capture i # announce v i)
      | Unintelligible \<Rightarrow>
          (Raise UnknownValueError, Capture i # announce v i @ [Print ''Converting speech to text...''])
      | RequestError msg \<Rightarrow>
          (Raise (Exception msg), Capture i # announce v i @ [Print ''Converting speech to text...''])
      | CaptureCtrlC \<Rightarrow> (Raise KeyboardInterrupt, Capture i # announce v i))"
  by (simp add: capture_on_def recognise_def announce_def io_defs split: capture.splits)

lemma capture_on_events:
  "capture_on v e i = (r, evs) \<Longrightarrow> ev \<in> set evs \<Longrightarrow> ev = Capture i \<or> is_Print ev"
  by (auto simp: capture_on_closed announce_def split: capture.splits if_splits)

lemma capture_on_failure:
  "failure (mic e i) \<Longrightarrow> \<exists>x evs. capture_on v e i = (Raise x, evs) \<and> is_Exception x"
  by (cases "mic e i") (simp_all add: capture_on_closed)

lemma capture_on_heard:
  "mic e i = Heard text \<Longrightarrow> fst (capture_on v e i) = Ret (strip text)"
  by (simp add: capture_on_closed)

lemma attempt_cases:
  "attempt e i =
     (case capture_on Conda e i of
        (Ret text, evs) \<Rightarrow> (Ret (Some text), evs)
      | (Raise x, evs) \<Rightarrow>
          if is_Exception x
          then (Ret None, evs @ [Print (''Microphone '' @ digit i @ '' failed: '' @ take 50 (str_of x) @ ''...'')])
          else (Raise x, evs))"
  by (cases "capture_on Conda e i") (auto simp: attempt_def io_defs split: res.splits)

lemma attempt_raises: "attempt e i = (Raise x, evs) \<Longrightarrow> x = KeyboardInterrupt \<and> mic e i = CaptureCtrlC"
  by (auto simp: attempt_cases capture_on_closed is_Exception_def split: capture.splits if_splits)

lemma attempt_failure: "failure (mic e i) \<Longrightarrow> fst (attempt e i) = Ret None"
  by (cases "mic e i") (simp_all add: attempt_cases capture_on_closed)

lemma attempt_events:
  "attempt e i = (r, evs) \<Longrightarrow> ev \<in> set evs \<Longrightarrow> ev = Capture i \<or> is_Print ev"
  by (cases "capture_on Conda e i")
     (auto simp: attempt_cases split: res.splits if_splits dest: capture_on_events)

lemma try_sources_raises:
  "try_sources e is = (Raise x, evs) \<Longrightarrow> x = KeyboardInterrupt \<and> (\<exists>i \<in> set is. mic e i = CaptureCtrlC)"
proof (induction "is" arbitrary: evs)
  case Nil
  then show ?case by (simp add: io_defs)
next
  case (Cons i rest)
  obtain r evs1 where a: "attempt e i = (r, evs1)" by (cases "attempt e i")
  obtain r2 evs2 where b: "try_sources e rest = (r2, evs2)" by (cases "try_sources e rest")
  from Cons.prems a b show ?case
    using Cons.IH [of evs2] attempt_raises [of e i x evs1]
    by (auto split: res.splits option.splits)
qed

lemma try_sources_failure:
  "list_all (\<lambda>i. failure (mic e i)) is \<Longrightarrow> fst (try_sources e is) = Ret None"
proof (induction "is")
  case Nil
  then show ?case by (simp add: io_defs)
next
  case (Cons i rest)
  then have "fst (attempt e i) = Ret None" and "fst (try_sources e rest) = Ret None"
    by (simp_all add: attempt_failure)
  then show ?case
    by (cases "attempt e i"; cases "try_sources e rest") simp
qed

lemma try_sources_events:
  "try_sources e is = (r, evs) \<Longrightarrow> ev \<in> set evs \<Longrightarrow> is_Capture ev \<or> is_Print ev"
proof (induction "is" arbitrary: r evs)
  case Nil
  then show ?case by (auto simp: io_defs)
next
  case (Cons i rest)
  obtain r1 evs1 where a: "attempt e i = (r1, evs1)" by (cases "attempt e i")
  obtain r2 evs2 where b: "try_sources e rest = (r2, evs2)" by (cases "try_sources e rest")
  have "is_Capture ev \<or> is_Print ev" if "ev \<in> set evs1"
    using attempt_events [OF a that] by auto
  moreover have "is_Capture ev \<or> is_Print ev" if "ev \<in> set evs2"
    using Cons.IH [OF b that] .
  ultimately show ?case
    using Cons.prems a b by (auto split: res.splits option.splits)
qed

section \<open>\<open>listen\<close>\<close>

lemma listen_disabled: "\<not> voice_input s \<Longrightarrow> listen v s e = (Ret None, [])"
  by (simp add: listen_def io_defs)

lemma listen_Base_closed:
  "voice_input s \<Longrightarrow>
   listen Base s e =
     (case capture_on Base e 0 of
        (Ret text, evs) \<Rightarrow>
          (Ret (Some text), Print (nl # ''Listening... (speak now or press Ctrl+C for text input)'') # evs)
      | (Raise x, evs) \<Rightarrow>
          (case listen_handler Base x of
             None \<Rightarrow> (Raise x, Print (nl # ''Listening... (speak now or press Ctrl+C for text input)'') # evs)
           | Some (r, evs') \<Rightarrow>
               (r, Print (nl # ''Listening... (speak now or press Ctrl+C for text input)'') # evs @ evs')))"
  by (cases "capture_on Base e 0")
     (auto simp: listen_def io_defs split: res.splits option.splits)

lemma listen_handler_cases:
  "listen_handler v x = None \<longleftrightarrow> x = KeyboardInterrupt"
  "listen_handler v x = Some (r, evs) \<Longrightarrow> r = Ret None \<and> (\<forall>ev \<in> set evs. is_Print ev)"
  by (auto simp: listen_handler_def io_defs split: exn.splits if_splits)

lemma listen_Conda_closed:
  assumes vi: "voice_input s"
  shows "listen Conda s e =
     (case mic_ctor e of
        Some msg \<Rightarrow>
          (Ret None, [Print (nl # ''Listening... (speak now)''),
                      Print (''Speech recognition error: '' @ msg)])
      | None \<Rightarrow>
          (case try_sources e microphone_sources of
             (r, evs) \<Rightarrow> (r, Print (nl # ''Listening... (speak now)'') # evs)))"
proof (cases "mic_ctor e")
  case None
  obtain r evs where t: "try_sources e microphone_sources = (r, evs)"
    by (cases "try_sources e microphone_sources")
  show ?thesis
  proof (cases r)
    case (Ret a)
    with None t vi show ?thesis
      by (simp add: listen_def io_defs)
  next
    case (Raise x)
    with t have "x = KeyboardInterrupt" using try_sources_raises by blast
    with None t Raise vi show ?thesis
      by (simp add: listen_def io_defs listen_handler_def)
  qed
next
  case (Some msg)
  with vi show ?thesis
    by (simp add: listen_def io_defs listen_handler_def)
qed

lemma listen_raises:
  "listen v s e = (Raise x, evs) \<Longrightarrow> x = KeyboardInterrupt"
proof (cases "voice_input s")
  case False
  assume "listen v s e = (Raise x, evs)"
  with False show ?thesis by (simp add: listen_disabled)
next
  case True
  assume l: "listen v s e = (Raise x, evs)"
  show ?thesis
  proof (cases v)
    case Base
    obtain r1 evs1 where c: "capture_on Base e 0 = (r1, evs1)" by (cases "capture_on Base e 0")
    from l True Base c show ?thesis
      using listen_handler_cases [of Base]
      by (auto simp: listen_Base_closed split: res.splits option.splits)
  next
    case Conda
    obtain r1 evs1 where c: "try_sources e microphone_sources = (r1, evs1)"
      by (cases "try_sources e microphone_sources")
    from l True Conda c show ?thesis
      using try_sources_raises [of e "microphone_sources" x evs1]
      by (auto simp: listen_Conda_closed split: option.splits)
  qed
qed

lemma listen_failure:
  assumes "capture_fails v e"
  shows "fst (listen v s e) = Ret None"
proof (cases "voice_input s")
  case False
  then show ?thesis by (simp add: listen_disabled)
next
  case True
  show ?thesis
  proof (cases v)
    case Base
    with assms have "failure (mic e 0)" by (simp add: capture_fails_def)
    then show ?thesis
      using True Base
      by (cases "mic e 0")
         (simp_all add: listen_Base_closed capture_on_closed listen_handler_def io_defs)
  next
    case Conda
    show ?thesis
    proof (cases "mic_ctor e")
      case None
      with assms Conda have "list_all (\<lambda>i. failure (mic e i)) microphone_sources"
        by (simp add: capture_fails_def)
      then have "fst (try_sources e microphone_sources) = Ret None" by (rule try_sources_failure)
      with True Conda None show ?thesis
        by (cases "try_sources e microphone_sources") (simp add: listen_Conda_closed)
    next
      case (Some msg)
      with True Conda show ?thesis by (simp add: listen_Conda_closed)
    qed
  qed
qed

lemma listen_events:
  assumes "listen v s e = (r, evs)" and "ev \<in> set evs"
  shows "is_Capture ev \<or> is_Print ev"
proof (cases "voice_input s")
  case False
  with assms show ?thesis by (simp add: listen_disabled)
next
  case True
  show ?thesis
  proof (cases v)
    case Base
    obtain r1 evs1 where c: "capture_on Base e 0 = (r1, evs1)" by (cases "capture_on Base e 0")
    have 1: "is_Capture ev \<or> is_Print ev" if "ev \<in> set evs1"
      using capture_on_events [OF c that] by auto
    from assms True Base c show ?thesis
      using 1 listen_handler_cases(2) [of Base]
      by (auto simp: listen_Base_closed split: res.splits option.splits)
  next
    case Conda
    obtain r1 evs1 where c: "try_sources e microphone_sources = (r1, evs1)"
      by (cases "try_sources e microphone_sources")
    have 1: "is_Capture ev \<or> is_Print ev" if "ev \<in> set evs1"
      using try_sources_events [OF c that] .
    from assms True Conda c show ?thesis
      using 1 by (auto simp: listen_Conda_closed split: option.splits)
  qed
qed

lemma listen_Base_one_capture:
  "voice_input s \<Longrightarrow> length (filter is_Capture (snd (listen Base s e))) = 1"
  by (cases "mic e 0")
     (simp_all add: listen_Base_closed capture_on_closed listen_handler_def io_defs announce_def)

lemma listen_Base_heard:
  "voice_input s \<Longrightarrow> mic e 0 = Heard text \<Longrightarrow> fst (listen Base s e) = Ret (Some (strip text))"
  by (simp add: listen_Base_closed capture_on_closed)

section \<open>The loop body\<close>

lemma input_closed:
  "input e =
     (case stdin e of
        Line l \<Rightarrow> (Ret l, [ReadLine])
      | EOF \<Rightarrow> (Raise (Exception ''EOF when reading a line''), [ReadLine])
      | CtrlC \<Rightarrow> (Raise KeyboardInterrupt, [ReadLine]))"
  by (simp add: input_def io_defs split: stdin_event.splits)

lemma get_text_input_closed:
  "get_text_input e =
     (case stdin e of
        Line l \<Rightarrow> (Ret (strip l), [Print ''Type your message: '', ReadLine])
      | EOF \<Rightarrow> (Raise (Exception ''EOF when reading a line''), [Print ''Type your message: '', ReadLine])
      | CtrlC \<Rightarrow> (Raise KeyboardInterrupt, [Print ''Type your message: '', ReadLine]))"
  by (simp add: get_text_input_def input_closed io_defs split: stdin_event.splits)

lemma get_input_fallback:
  assumes "fst (listen Base s e) = Ret None"
  shows "get_input s e True =
           (fst (get_text_input e),
            (if voice_input s then snd (listen Base s e) @ [Print ''Switching to text input...'']
             else [])
            @ snd (get_text_input e))"
  using assms
  by (cases "listen Base s e"; cases "get_text_input e") (simp add: get_input_def io_defs)

lemma render_raises:
  "render s e r = (Raise x, evs) \<Longrightarrow> x = KeyboardInterrupt \<and> tts s \<and> tts_say e = SayCtrlC"
  by (auto simp: render_closed split: if_splits tts_reply.splits)

lemma render_returns: "tts_say e \<noteq> SayCtrlC \<Longrightarrow> fst (render s e r) = Ret ()"
  by (auto simp: render_closed split: tts_reply.splits)

lemma render_events:
  "ev \<in> set (snd (render s e r)) \<Longrightarrow> is_Print ev \<or> ev = Say r"
  by (auto simp: render_closed split: if_splits tts_reply.splits)

lemma process_cases:
  "process s e u =
     (case get_response e u of
        (Raise x, evs) \<Rightarrow> (Raise x, Print ''Processing your question...'' # evs)
      | (Ret r, evs) \<Rightarrow>
          (case render s e r of
             (Raise x, evs') \<Rightarrow> (Raise x, Print ''Processing your question...'' # evs @ evs')
           | (Ret u', evs') \<Rightarrow>
               (Ret Continue,
                Print ''Processing your question...'' # evs @ evs' @ [Print (replicate 50 (CHR ''-''))])))"
  by (cases "get_response e u")
     (auto simp: process_def io_defs split: res.splits prod.splits)

lemma process_raises:
  "process s e u = (Raise x, evs) \<Longrightarrow> x = KeyboardInterrupt \<and> \<not> uninterrupted e"
  by (cases "get_response e u")
     (auto simp: process_cases uninterrupted_def split: res.splits prod.splits
           dest: get_response_raises render_raises)

lemma process_signal: "process s e u = (Ret sig, evs) \<Longrightarrow> sig = Continue"
  by (cases "get_response e u") (auto simp: process_cases split: res.splits prod.splits)

lemma process_uninterrupted:
  assumes "uninterrupted e"
  shows "process s e u =
           (Ret Continue,
            Print ''Processing your question...'' # snd (get_response e u)
              @ snd (render s e (reply_text (llm e))) @ [Print (replicate 50 (CHR ''-''))])"
proof -
  from assms have g: "fst (get_response e u) = Ret (reply_text (llm e))"
    by (simp add: uninterrupted_def get_response_returns)
  from assms have r: "fst (render s e (reply_text (llm e))) = Ret ()"
    by (simp add: uninterrupted_def render_returns)
  from g r show ?thesis
    by (cases "get_response e u"; cases "render s e (reply_text (llm e))")
       (simp add: process_cases)
qed

lemma render_no_invoke: "filter is_Invoke (snd (render s e r)) = []"
proof -
  have "\<not> is_Invoke ev" if "ev \<in> set (snd (render s e r))" for ev
    using render_events [OF that] by (cases ev) auto
  then show ?thesis by (simp add: filter_empty_conv)
qed

lemma process_invoke_count:
  "filter is_Invoke (snd (process s e u)) = filter is_Invoke (snd (get_response e u))"
proof (cases "get_response e u")
  case (Pair r evs)
  show ?thesis
  proof (cases r)
    case (Ret a)
    have "filter is_Invoke (snd (render s e a)) = []" by (rule render_no_invoke)
    with Pair Ret show ?thesis
      by (cases "render s e a") (auto simp: process_cases split: res.splits)
  next
    case (Raise x)
    with Pair show ?thesis by (simp add: process_cases)
  qed
qed

lemma lower_Nil [simp]: "lower [] = []"
  by (simp add: lower_def)

lemma lower_eq_Nil [simp]: "lower s = [] \<longleftrightarrow> s = []"
  by (simp add: lower_def)

lemma voice_not_exit: "''voice'' \<notin> set exit_words"
  by (simp add: exit_words_def)

lemma exit_word_nonempty: "w \<in> set exit_words \<Longrightarrow> w \<noteq> []"
  by (auto simp: exit_words_def)

lemma body_empty:
  "stdin e = Line l \<Longrightarrow> strip l = [] \<Longrightarrow>
   body v s e = (Ret Continue, asked @ [Print ''Please enter a question or type 'quit' to exit''])"
  by (simp add: body_def input_closed io_defs asked_def)

lemma body_exit:
  "stdin e = Line l \<Longrightarrow> lower (strip l) \<in> set exit_words \<Longrightarrow>
   body v s e =
     io_then (Ret (), asked)
       (io_then (speak s (tts_say e) ''Goodbye! Have a great day!'') (Ret Break, [Print ''Goodbye!'']))"
  by (frule exit_word_nonempty)
     (simp add: body_def input_closed io_defs asked_def Let_def case_prod_beta)

lemma body_plain:
  "stdin e = Line l \<Longrightarrow> strip l \<noteq> [] \<Longrightarrow> lower (strip l) \<notin> set exit_words \<Longrightarrow>
   lower (strip l) \<noteq> ''voice'' \<Longrightarrow>
   body v s e = io_then (Ret (), asked) (process s e (strip l))"
  by (simp add: body_def input_closed io_defs asked_def Let_def case_prod_beta)

lemma body_voice_disabled:
  "stdin e = Line l \<Longrightarrow> lower (strip l) = ''voice'' \<Longrightarrow> \<not> voice_input s \<Longrightarrow>
   body v s e = (Ret Continue, asked @ unavailable v)"
  using voice_not_exit
  by (auto simp: body_def input_closed io_defs asked_def Let_def unavailable_def)

lemma body_voice_enabled:
  "stdin e = Line l \<Longrightarrow> lower (strip l) = ''voice'' \<Longrightarrow> voice_input s \<Longrightarrow>
   body v s e =
     (case listen v s e of
        (Raise x, evs) \<Rightarrow>
          (Raise x, asked @ Print ''Switching to voice input - speak now...'' # evs)
      | (Ret r, evs) \<Rightarrow>
          if heard r then
            io_then
              (Ret (), asked @ Print ''Switching to voice input - speak now...'' # evs
                        @ [Print (''Voice input received: '' @ the r)])
              (process s e (the r))
          else
            (Ret Continue,
             asked @ Print ''Switching to voice input - speak now...'' # evs
               @ [Print ''Voice input failed, please type your question'']))"
  using voice_not_exit
  by (cases "listen v s e")
     (auto simp: body_def input_closed io_defs asked_def Let_def split: res.splits prod.splits)

lemma body_eof:
  "stdin e = EOF \<Longrightarrow> body v s e = (Raise (Exception ''EOF when reading a line''), asked)"
  by (simp add: body_def input_closed io_defs asked_def)

lemma body_ctrl_c:
  "stdin e = CtrlC \<Longrightarrow> body v s e = (Raise KeyboardInterrupt, asked)"
  by (simp add: body_def input_closed io_defs asked_def)

section \<open>The loop and its handlers\<close>

lemma handlers_interrupt:
  "handlers s e KeyboardInterrupt =
     Some (io_then (speak s (tts_farewell e) ''Goodbye!'') (Ret Break, [Print (nl # ''Goodbye!'')]))"
  by (simp add: handlers_def io_defs)

lemma handlers_Exception:
  "is_Exception x \<Longrightarrow>
   handlers s e x =
     Some (Ret Continue,
           [Print (''Error: '' @ str_of x), Print ''Please try again or type 'quit' to exit''])"
  by (cases x) (simp_all add: handlers_def io_defs)

lemma turn_Ret: "body v s e = (Ret sig, evs) \<Longrightarrow> turn v s e = (Ret sig, evs)"
  by (simp add: turn_def)

lemma turn_Exception:
  "body v s e = (Raise x, evs) \<Longrightarrow> is_Exception x \<Longrightarrow>
   turn v s e =
     (Ret Continue,
      evs @ [Print (''Error: '' @ str_of x), Print ''Please try again or type 'quit' to exit''])"
  by (simp add: turn_def handlers_Exception)

lemma speak_raises:
  "speak s r text = (Raise x, evs) \<Longrightarrow> x = KeyboardInterrupt \<and> tts s \<and> r = SayCtrlC"
  by (auto simp: speak_closed split: if_splits tts_reply.splits)

lemma speak_events:
  "ev \<in> set (snd (speak s r text)) \<Longrightarrow> is_Print ev \<or> ev = Say text"
  by (auto simp: speak_closed split: if_splits tts_reply.splits)

lemma turn_interrupted:
  "body v s e = (Raise KeyboardInterrupt, evs) \<Longrightarrow>
   turn v s e =
     (case speak s (tts_farewell e) ''Goodbye!'' of
        (Ret u, evs') \<Rightarrow> (Ret Break, evs @ evs' @ [Print (nl # ''Goodbye!'')])
      | (Raise x, evs') \<Rightarrow> (Raise x, evs @ evs'))"
  by (cases "speak s (tts_farewell e) ''Goodbye!''")
     (auto simp: turn_def handlers_interrupt split: res.splits)

lemma turn_raises:
  assumes "turn v s e = (Raise x, evs)"
  shows "x = KeyboardInterrupt"
proof (cases "body v s e")
  case (Pair r evs0)
  show ?thesis
  proof (cases r)
    case (Ret sig)
    with Pair assms show ?thesis by (simp add: turn_Ret)
  next
    case (Raise y)
    show ?thesis
    proof (cases "is_Exception y")
      case True
      with Pair Raise assms show ?thesis by (simp add: turn_Exception)
    next
      case False
      then have y: "y = KeyboardInterrupt" by (simp add: is_Exception_def)
      obtain r1 evs1 where sp: "speak s (tts_farewell e) ''Goodbye!'' = (r1, evs1)"
        by (cases "speak s (tts_farewell e) ''Goodbye!''")
      from Pair Raise y assms sp show ?thesis
        using speak_raises [of s "tts_farewell e" "''Goodbye!''" x evs1]
        by (cases r1) (simp_all add: turn_interrupted)
    qed
  qed
qed

lemma listen_interrupted:
  assumes "listen v s e = (Raise x, evs)"
  shows "\<exists>i \<in> set microphone_sources. mic e i = CaptureCtrlC"
proof (cases "voice_input s")
  case False
  with assms show ?thesis by (simp add: listen_disabled)
next
  case True
  show ?thesis
  proof (cases v)
    case Base
    from assms True Base have "mic e 0 = CaptureCtrlC"
      by (cases "mic e 0")
         (simp_all add: listen_Base_closed capture_on_closed listen_handler_def io_defs)
    then show ?thesis by (simp add: microphone_sources_def)
  next
    case Conda
    obtain r1 evs1 where c: "try_sources e microphone_sources = (r1, evs1)"
      by (cases "try_sources e microphone_sources")
    from assms True Conda c have "r1 = Raise x"
      by (auto simp: listen_Conda_closed split: option.splits)
    with c show ?thesis using try_sources_raises by blast
  qed
qed

lemma loop_continue:
  "fst (turn v s e) = Ret Continue \<Longrightarrow>
   loop v s (e # es) = (fst (loop v s es), snd (turn v s e) @ snd (loop v s es))"
  by (cases "turn v s e"; cases "loop v s es") simp

lemma loop_break:
  "fst (turn v s e) = Ret Break \<Longrightarrow> loop v s (e # es) = (Ended, snd (turn v s e))"
  by (cases "turn v s e") simp

lemma loop_raise:
  "fst (turn v s e) = Raise x \<Longrightarrow> loop v s (e # es) = (Escaped x, snd (turn v s e))"
  by (cases "turn v s e") simp

lemma loop_single:
  "loop v s [e] =
     (case fst (turn v s e) of
        Ret Continue \<Rightarrow> AwaitingInput | Ret Break \<Rightarrow> Ended | Raise x \<Rightarrow> Escaped x,
      snd (turn v s e))"
  by (cases "turn v s e") (auto split: res.splits signal.splits)

lemma loop_append:
  "fst (loop v s h) = AwaitingInput \<Longrightarrow>
   loop v s (h @ es) = (fst (loop v s es), snd (loop v s h) @ snd (loop v s es))"
proof (induction h)
  case Nil
  then show ?case by simp
next
  case (Cons e h)
  obtain r evs where t: "turn v s e = (r, evs)" by (cases "turn v s e")
  show ?case
  proof (cases r)
    case (Ret sig)
    show ?thesis
    proof (cases sig)
      case Continue
      with t Ret have c: "fst (turn v s e) = Ret Continue" by simp
      from Cons.prems have "fst (loop v s h) = AwaitingInput"
        by (simp add: loop_continue [OF c] del: loop.simps)
      then have "loop v s (h @ es) = (fst (loop v s es), snd (loop v s h) @ snd (loop v s es))"
        by (rule Cons.IH)
      then show ?thesis
        using loop_continue [OF c, of "h @ es"] loop_continue [OF c, of h]
        by (simp del: loop.simps)
    next
      case Break
      with t Ret Cons.prems show ?thesis by simp
    qed
  next
    case (Raise x)
    with t Cons.prems show ?thesis by simp
  qed
qed

lemma loop_all_continue:
  "list_all (\<lambda>e. fst (turn v s e) = Ret Continue) es \<Longrightarrow> fst (loop v s es) = AwaitingInput"
  by (induction es) (simp_all add: loop_continue del: loop.simps(2))

lemma loop_escaped: "fst (loop v s es) = Escaped x \<Longrightarrow> x = KeyboardInterrupt"
proof (induction es)
  case Nil
  then show ?case by simp
next
  case (Cons e es)
  obtain r evs where t: "turn v s e = (r, evs)" by (cases "turn v s e")
  show ?case
  proof (cases r)
    case (Ret sig)
    with t Cons show ?thesis
      by (cases sig; cases "loop v s es") auto
  next
    case (Raise y)
    with t have "y = KeyboardInterrupt" using turn_raises by blast
    with t Raise Cons.prems show ?thesis by simp
  qed
qed

section \<open>What a turn captures and when it continues\<close>




lemma speak_no_invoke: "filter is_Invoke (snd (speak s r text)) = []"
proof -
  have "\<not> is_Invoke ev" if "ev \<in> set (snd (speak s r text))" for ev
    using speak_events [OF that] by (cases ev) auto
  then show ?thesis by (simp add: filter_empty_conv)
qed


lemma listen_no_invoke: "filter is_Invoke (snd (listen v s e)) = []"
proof -
  have "\<not> is_Invoke ev" if "ev \<in> set (snd (listen v s e))" for ev
    using listen_events [of v s e "fst (listen v s e)" "snd (listen v s e)" ev] that
    by (cases ev) auto
  then show ?thesis by (simp add: filter_empty_conv)
qed



text \<open>A turn without Ctrl-C and without an exit word goes back to waiting for input.\<close>

lemma turn_continues:
  assumes nc: "no_ctrl_c e" and ne: "\<not> exit_typed e"
  shows "fst (turn v s e) = Ret Continue"
proof -
  from nc have un: "uninterrupted e" by (simp add: no_ctrl_c_def)
  have proc: "fst (process s e u) = Ret Continue" for u
    by (simp add: process_uninterrupted [OF un])
  show ?thesis
  proof (cases "stdin e")
    case (Line l)
    with ne have nx: "lower (strip l) \<notin> set exit_words" by (simp add: exit_typed_def)
    show ?thesis
    proof (cases "strip l = []")
      case True
      from body_empty [OF Line True] show ?thesis by (simp add: turn_Ret)
    next
      case False
      show ?thesis
      proof (cases "lower (strip l) = ''voice''")
        case nv: False
        from body_plain [OF Line False nx nv] proc [of "strip l"] show ?thesis
          by (cases "process s e (strip l)") (simp add: turn_Ret)
      next
        case vc: True
        show ?thesis
        proof (cases "voice_input s")
          case False
          from body_voice_disabled [OF Line vc False] show ?thesis by (simp add: turn_Ret)
        next
          case True
          obtain r evs where li: "listen v s e = (r, evs)" by (cases "listen v s e")
          show ?thesis
          proof (cases r)
            case (Ret a)
            with li body_voice_enabled [OF Line vc True, of v] proc [of "the a"]
            have "\<exists>evs'. body v s e = (Ret Continue, evs')"
              by (cases "process s e (the a)") auto
            then show ?thesis by (auto simp: turn_Ret)
          next
            case (Raise x)
            with li have "\<exists>i \<in> set microphone_sources. mic e i = CaptureCtrlC"
              using listen_interrupted by blast
            with nc show ?thesis by (auto simp: no_ctrl_c_def list_all_iff)
          qed
        qed
      qed
    qed
  next
    case EOF
    from body_eof [OF EOF] show ?thesis by (simp add: turn_Exception)
  next
    case CtrlC
    with nc show ?thesis by (simp add: no_ctrl_c_def)
  qed
qed






text \<open>No turn asks the model more than once.\<close>

lemma turn_invokes:
  "filter is_Invoke (snd (turn v s e)) = filter is_Invoke (snd (body v s e))"
proof (cases "body v s e")
  case (Pair r evs)
  show ?thesis
  proof (cases r)
    case (Ret sig)
    with Pair show ?thesis by (simp add: turn_Ret)
  next
    case (Raise x)
    show ?thesis
    proof (cases "is_Exception x")
      case True
      with Pair Raise show ?thesis by (simp add: turn_Exception)
    next
      case False
      then have x: "x = KeyboardInterrupt" by (simp add: is_Exception_def)
      have "filter is_Invoke (snd (speak s (tts_farewell e) ''Goodbye!'')) = []"
        by (rule speak_no_invoke)
      with Pair Raise x show ?thesis
        by (cases "speak s (tts_farewell e) ''Goodbye!''")
           (auto simp: turn_interrupted split: res.splits)
    qed
  qed
qed

lemma asked_no_invoke: "filter is_Invoke asked = []"
  by (simp add: asked_def)

lemma body_invoke_count: "length (filter is_Invoke (snd (body v s e))) \<le> 1"
proof (cases "stdin e")
  case (Line l)
  have p: "length (filter is_Invoke (snd (process s e u))) \<le> 1" for u
    using get_response_invoke_count [of e u] by (simp add: process_invoke_count)
  consider (empty) "strip l = []"
    | (exit) "lower (strip l) \<in> set exit_words"
    | (voice_on) "lower (strip l) = ''voice''" "voice_input s"
    | (voice_off) "lower (strip l) = ''voice''" "\<not> voice_input s"
    | (plain) "strip l \<noteq> []" "lower (strip l) \<notin> set exit_words" "lower (strip l) \<noteq> ''voice''"
    by blast
  then show ?thesis
  proof cases
    case empty
    with Line show ?thesis by (simp add: body_empty asked_def)
  next
    case exit
    have "filter is_Invoke (snd (speak s (tts_say e) ''Goodbye! Have a great day!'')) = []"
      by (rule speak_no_invoke)
    with Line exit show ?thesis
      by (cases "speak s (tts_say e) ''Goodbye! Have a great day!''";
          cases "fst (speak s (tts_say e) ''Goodbye! Have a great day!'')")
         (auto simp: body_exit asked_def)
  next
    case voice_on
    have l: "filter is_Invoke (snd (listen v s e)) = []" by (rule listen_no_invoke)
    show ?thesis
    proof (cases "listen v s e")
      case (Pair r evs)
      with l have evs: "filter is_Invoke evs = []" by simp
      show ?thesis
      proof (cases r)
        case (Raise x)
        with Line voice_on Pair evs show ?thesis by (simp add: body_voice_enabled asked_def)
      next
        case (Ret t)
        with Line voice_on Pair evs p [of "the t"] show ?thesis
          by (cases "process s e (the t)") (simp add: body_voice_enabled asked_def)
      qed
    qed
  next
    case voice_off
    with Line show ?thesis by (simp add: body_voice_disabled asked_def unavailable_def)
  next
    case plain
    with Line p [of "strip l"] show ?thesis
      by (cases "process s e (strip l)") (simp add: body_plain asked_def)
  qed
next
  case EOF
  then show ?thesis by (simp add: body_eof asked_def)
next
  case CtrlC
  then show ?thesis by (simp add: body_ctrl_c asked_def)
qed

lemma turn_invoke_count: "length (filter is_Invoke (snd (turn v s e))) \<le> 1"
  using body_invoke_count [of v s e] by (simp add: turn_invokes)

section \<open>The one-shot command and start-up\<close>

lemma get_response_no_readline: "ReadLine \<notin> set (snd (get_response e q))"
  using get_response_events [of e q "fst (get_response e q)" "snd (get_response e q)" ReadLine]
  by auto

lemma run_single_command_cases:
  "run_single_command s e c =
     (case get_response e c of
        (Raise x, evs) \<Rightarrow> (Raise x, Print (''Processing: '' @ c) # Print ''Getting response...'' # evs)
      | (Ret r, evs) \<Rightarrow>
          if tts s then
            (case tts_say e of
               Spoken \<Rightarrow>
                 (Ret r, Print (''Processing: '' @ c) # Print ''Getting response...'' # evs
                         @ [Print (nl # ''Bot: '' @ r), Say r, Print ''Response spoken successfully!''])
             | TtsError msg \<Rightarrow>
                 (Ret r, Print (''Processing: '' @ c) # Print ''Getting response...'' # evs
                         @ [Print (nl # ''Bot: '' @ r), Say r, Print (''Speech output failed: '' @ msg)])
             | SayCtrlC \<Rightarrow>
                 (Raise KeyboardInterrupt,
                  Print (''Processing: '' @ c) # Print ''Getting response...'' # evs
                    @ [Print (nl # ''Bot: '' @ r), Say r]))
          else
            (Ret r, Print (''Processing: '' @ c) # Print ''Getting response...'' # evs
                    @ [Print (nl # ''Bot: '' @ r)]))"
  by (cases "get_response e c")
     (auto simp: run_single_command_def say_closed io_defs split: res.splits tts_reply.splits)

lemma run_single_command_raises:
  "run_single_command s e c = (Raise x, evs) \<Longrightarrow> x = KeyboardInterrupt \<and> \<not> uninterrupted e"
  by (cases "get_response e c")
     (auto simp: run_single_command_cases uninterrupted_def
           split: res.splits if_splits tts_reply.splits dest: get_response_raises)

lemma run_single_command_returns:
  assumes "uninterrupted e"
  shows "fst (run_single_command s e c) = Ret (reply_text (llm e))"
proof -
  from assms have "fst (get_response e c) = Ret (reply_text (llm e))"
    by (simp add: uninterrupted_def get_response_returns)
  with assms show ?thesis
    by (cases "get_response e c")
       (auto simp: run_single_command_cases uninterrupted_def split: tts_reply.splits)
qed

lemma run_single_command_invokes:
  "filter is_Invoke (snd (run_single_command s e c)) = filter is_Invoke (snd (get_response e c))"
  by (cases "get_response e c")
     (auto simp: run_single_command_cases split: res.splits tts_reply.splits)

lemma run_single_command_no_readline: "ReadLine \<notin> set (snd (run_single_command s e c))"
  using get_response_no_readline [of e c]
  by (cases "get_response e c")
     (auto simp: run_single_command_cases split: res.splits tts_reply.splits)

lemma init_voice_closed:
  "\<exists>vi evs. init_voice v st = (Ret vi, evs) \<and> list_all is_Print evs"
  by (cases "mic_probe st") (auto simp: init_voice_def io_defs)

lemma init_tts_closed:
  "\<exists>t evs. init_tts v st = (Ret t, evs) \<and> list_all is_Print evs"
  by (cases "tts_probe st") (auto simp: init_tts_def io_defs)

lemma init_prints: "list_all is_Print (snd (init v st))"
proof -
  obtain vi evs1 where a: "init_voice v st = (Ret vi, evs1)" and a': "list_all is_Print evs1"
    using init_voice_closed by blast
  obtain t evs2 where b: "init_tts v st = (Ret t, evs2)" and b': "list_all is_Print evs2"
    using init_tts_closed by blast
  from a a' b b' show ?thesis
    by (auto simp: init_def io_defs split: option.splits)
qed

lemma init_raises: "init v st = (Raise x, evs) \<Longrightarrow> is_Exception x"
proof -
  assume r: "init v st = (Raise x, evs)"
  obtain vi evs1 where a: "init_voice v st = (Ret vi, evs1)"
    using init_voice_closed by blast
  obtain t evs2 where b: "init_tts v st = (Ret t, evs2)"
    using init_tts_closed by blast
  from r a b show ?thesis
    by (auto simp: init_def io_defs split: option.splits if_splits)
qed

lemma init_no_key:
  assumes "GOOGLE_API_KEY st = None \<or> GOOGLE_API_KEY st = Some []"
  shows "fst (init v st) = Raise (Exception ''GOOGLE_API_KEY not found in .env file'')"
proof -
  obtain vi evs1 where a: "init_voice v st = (Ret vi, evs1)"
    using init_voice_closed by blast
  obtain t evs2 where b: "init_tts v st = (Ret t, evs2)"
    using init_tts_closed by blast
  from assms a b show ?thesis
    by (auto simp: init_def io_defs)
qed

lemma init_raises_iff:
  "(\<exists>x evs. init v st = (Raise x, evs))
   \<longleftrightarrow> (GOOGLE_API_KEY st = None \<or> GOOGLE_API_KEY st = Some [])"
proof -
  obtain vi evs1 where a: "init_voice v st = (Ret vi, evs1)"
    using init_voice_closed by blast
  obtain t evs2 where b: "init_tts v st = (Ret t, evs2)"
    using init_tts_closed by blast
  from a b show ?thesis
    by (auto simp: init_def io_defs split: option.splits)
qed

lemma main_init_failed:
  assumes "init v (startup w) = (Raise x, evs)"
  shows "main v w argv = (Ended, Print (opening_line v) # evs @ tips v x)"
proof -
  from assms have "is_Exception x" by (rule init_raises)
  with assms show ?thesis by (simp add: main_def guarded_def io_defs)
qed

lemma main_single:
  assumes "init v (startup w) = (Ret s, evs)" and "1 < length argv"
  shows "main v w argv =
           (case run_single_command s (command_env w) (join '' '' (tl argv)) of
              (Ret response, evs') \<Rightarrow> (Ended, Print (opening_line v) # evs @ evs')
            | (Raise x, evs') \<Rightarrow> (Escaped x, Print (opening_line v) # evs @ evs'))"
proof (cases "run_single_command s (command_env w) (join '' '' (tl argv))")
  case (Pair r evs')
  show ?thesis
  proof (cases r)
    case (Ret a)
    with Pair assms show ?thesis by (simp add: main_def guarded_def io_defs)
  next
    case (Raise x)
    with Pair have "x = KeyboardInterrupt" using run_single_command_raises by blast
    with Pair Raise assms show ?thesis by (simp add: main_def guarded_def io_defs)
  qed
qed

lemma run_interactive_escaped:
  "fst (run_interactive v s g es) = Escaped x \<Longrightarrow> x = KeyboardInterrupt"
proof -
  assume r: "fst (run_interactive v s g es) = Escaped x"
  obtain r1 evs1 where sp: "speak s g ''Hello! I'm your AI assistant. What would you like to know?'' = (r1, evs1)"
    by (cases "speak s g ''Hello! I'm your AI assistant. What would you like to know?''")
  show ?thesis
  proof (cases r1)
    case (Ret u)
    with r sp have "fst (loop v s es) = Escaped x"
      by (cases "loop v s es") (simp add: run_interactive_def io_defs)
    then show ?thesis by (rule loop_escaped)
  next
    case (Raise y)
    with sp have "y = KeyboardInterrupt" using speak_raises by blast
    with r sp Raise show ?thesis by (simp add: run_interactive_def io_defs)
  qed
qed

lemma main_interactive:
  assumes "init v (startup w) = (Ret s, evs)" and "length argv \<le> 1"
  shows "main v w argv =
           (fst (run_interactive v s (greeting w) (script w)),
            Print (opening_line v) # evs @ snd (run_interactive v s (greeting w) (script w)))"
proof (cases "run_interactive v s (greeting w) (script w)")
  case (Pair st evs')
  show ?thesis
  proof (cases st)
    case (Escaped x)
    with Pair have "x = KeyboardInterrupt" using run_interactive_escaped [of v s "greeting w" "script w" x] by simp
    with Pair Escaped assms show ?thesis by (simp add: main_def guarded_def io_defs)
  qed (use Pair assms in \<open>simp_all add: main_def guarded_def io_defs\<close>)
qed

section \<open>The methods on the object\<close>

lemma flags_simps [simp]:
  "voice_input (flags self) = voice_input self" "tts (flags self) = tts self"
  by (simp_all add: flags_def session.truncate_def)

lemma keepsD: "keeps m \<Longrightarrow> snd (m self) = self"
  by (simp add: keeps_def)

lemma keeps_stmt: "keeps (stmt a)"
  by (simp add: keeps_def stmt_def)

lemma keeps_bind:
  assumes "keeps m" and "\<And>x. keeps (f x)"
  shows "keeps (m_bind m f)"
  unfolding keeps_def
proof
  fix self
  obtain r es s1 where m: "m self = ((r, es), s1)" by (cases "m self") auto
  with assms(1) have s1: "s1 = self" by (auto simp: keeps_def dest: spec [of _ self])
  show "snd (m_bind m f self) = self"
  proof (cases r)
    case (Ret x)
    obtain r2 es2 s2 where f: "f x self = ((r2, es2), s2)" by (cases "f x self") auto
    with assms(2) [of x] have "s2 = self" by (auto simp: keeps_def dest: spec [of _ self])
    with m s1 Ret f show ?thesis by (simp add: m_bind_def)
  next
    case (Raise x)
    with m s1 show ?thesis by (simp add: m_bind_def)
  qed
qed

lemma keeps_then: "keeps m \<Longrightarrow> keeps n \<Longrightarrow> keeps (m_then m n)"
  by (simp add: m_then_def keeps_bind)

lemma keeps_if: "keeps a \<Longrightarrow> keeps b \<Longrightarrow> keeps (m_if c a b)"
  by (simp add: keeps_def m_if_def)

lemma keeps_try:
  assumes "keeps m" and "\<And>x n. h x = Some n \<Longrightarrow> keeps n"
  shows "keeps (m_try m h)"
  unfolding keeps_def
proof
  fix self
  obtain r es s1 where m: "m self = ((r, es), s1)" by (cases "m self") auto
  with assms(1) have s1: "s1 = self" by (auto simp: keeps_def dest: spec [of _ self])
  show "snd (m_try m h self) = self"
  proof (cases r)
    case (Ret x)
    with m s1 show ?thesis by (simp add: m_try_def)
  next
    case (Raise x)
    show ?thesis
    proof (cases "h x")
      case None
      with m s1 Raise show ?thesis by (simp add: m_try_def)
    next
      case (Some n)
      obtain r2 es2 s2 where n: "n self = ((r2, es2), s2)" by (cases "n self") auto
      with assms(2) [OF Some] have "s2 = self" by (auto simp: keeps_def dest: spec [of _ self])
      with m s1 Raise Some n show ?thesis by (simp add: m_try_def)
    qed
  qed
qed

lemma fst_stmt [simp]: "fst (stmt a self) = a"
  by (simp add: stmt_def)

lemma fst_m_bind:
  "keeps m \<Longrightarrow> fst (m_bind m f self) = io_bind (fst (m self)) (\<lambda>x. fst (f x self))"
  using keepsD [of m self]
  by (cases "m self") (auto simp: m_bind_def split: prod.splits res.splits)

lemma fst_m_then:
  "keeps m \<Longrightarrow> fst (m_then m n self) = io_then (fst (m self)) (fst (n self))"
  by (simp add: m_then_def io_then_def fst_m_bind)

lemma fst_m_try:
  "keeps m \<Longrightarrow>
   fst (m_try m h self) = try_except (fst (m self)) (\<lambda>x. map_option (\<lambda>n. fst (n self)) (h x))"
  using keepsD [of m self]
  by (cases "m self") (auto simp: m_try_def split: prod.splits res.splits option.splits)

lemma fst_m_if: "fst (m_if c a b self) = (if c self then fst (a self) else fst (b self))"
  by (simp add: m_if_def)

lemma map_option_if:
  "map_option f (if c then Some a else None) = (if c then Some (f a) else None)"
  by simp

lemmas method_simps = fst_m_bind fst_m_then fst_m_try fst_m_if map_option_if if_distribR

lemma keeps_handler:
  "(if c then Some (stmt a) else None) = Some n \<Longrightarrow> keeps n"
  by (auto split: if_splits intro: keeps_stmt)

lemma speak_self_keeps: "keeps (speak_self r text)"
  unfolding speak_self_def
  by (intro keeps_then keeps_if keeps_try keeps_stmt) (rule keeps_handler)

lemma speak_self_fst: "fst (speak_self r text self) = speak (flags self) r text"
  by (simp add: speak_self_def speak_def method_simps keeps_stmt cong: if_cong)

lemma listen_self_keeps: "keeps (listen_self v e)"
proof -
  have h: "keeps n" if "map_option stmt (listen_handler v x) = Some n" for x n
    using that by (auto intro: keeps_stmt)
  have b: "keeps
     (case v of
        Base \<Rightarrow>
          m_then (stmt (print (nl # ''Listening... (speak now or press Ctrl+C for text input)'')))
            (m_bind (stmt (capture_on Base e 0)) (\<lambda>text. stmt (ret (Some text))))
      | Conda \<Rightarrow>
          m_then (stmt (print (nl # ''Listening... (speak now)'')))
            (case mic_ctor e of
               Some msg \<Rightarrow> stmt (raise (Exception msg))
             | None \<Rightarrow> stmt (try_sources e microphone_sources)))"
    by (cases v; cases "mic_ctor e") (simp_all add: keeps_then keeps_bind keeps_stmt)
  show ?thesis
    unfolding listen_self_def
    by (rule keeps_if, rule keeps_stmt, rule keeps_try, rule b, rule h)
qed

lemma listen_self_fst: "fst (listen_self v e self) = listen v (flags self) e"
  by (cases v; cases "mic_ctor e")
     (simp_all add: listen_self_def listen_def method_simps keeps_stmt keeps_then keeps_bind
        option.map_comp comp_def option.map_ident cong: if_cong)

lemma get_response_self_keeps: "keeps (get_response_self e q)"
  unfolding get_response_self_def
  by (intro keeps_bind keeps_try keeps_stmt) (rule keeps_handler)

lemma get_response_self_fst: "fst (get_response_self e q self) = get_response e q"
  by (simp add: get_response_self_def get_response_def method_simps keeps_stmt keeps_bind
        cong: if_cong)

lemma render_self_keeps: "keeps (render_self e r)"
  unfolding render_self_def
  by (intro keeps_then keeps_if keeps_try keeps_stmt) (rule keeps_handler)

lemma render_self_fst: "fst (render_self e r self) = render (flags self) e r"
  by (simp add: render_self_def render_def method_simps keeps_stmt cong: if_cong)

lemma process_self_keeps: "keeps (process_self e u)"
  unfolding process_self_def
  by (intro keeps_then keeps_bind keeps_stmt get_response_self_keeps render_self_keeps)

lemma process_self_fst: "fst (process_self e u self) = process (flags self) e u"
  by (simp add: process_self_def process_def method_simps keeps_stmt keeps_then
        get_response_self_keeps render_self_keeps get_response_self_fst render_self_fst)

lemma body_self_keeps: "keeps (body_self v e)"
  unfolding body_self_def
  by (intro keeps_then keeps_bind keeps_stmt)
     (auto simp: Let_def
           intro!: keeps_then keeps_bind keeps_if keeps_stmt speak_self_keeps listen_self_keeps
                   process_self_keeps)

lemma body_self_fst: "fst (body_self v e self) = body v (flags self) e"
  by (simp add: body_self_def body_def method_simps Let_def keeps_stmt keeps_then keeps_bind
        keeps_if speak_self_keeps listen_self_keeps process_self_keeps
        speak_self_fst listen_self_fst process_self_fst if_distrib [of fst] cong: if_cong)

lemma handlers_self_keeps: "handlers_self e x = Some n \<Longrightarrow> keeps n"
  by (cases x)
     (auto simp: handlers_self_def intro!: keeps_then keeps_stmt speak_self_keeps)

lemma handlers_self_fst:
  "map_option (\<lambda>n. fst (n self)) (handlers_self e x) = handlers (flags self) e x"
  by (cases x)
     (simp_all add: handlers_self_def handlers_def method_simps keeps_stmt keeps_then
        speak_self_keeps speak_self_fst)

lemma turn_self_keeps: "keeps (turn_self v e)"
  unfolding turn_self_def
  by (rule keeps_try) (rule body_self_keeps, rule handlers_self_keeps)

lemma turn_self_fst: "fst (turn_self v e self) = turn v (flags self) e"
  by (simp add: turn_self_def turn_def fst_m_try body_self_keeps body_self_fst handlers_self_fst)

lemma turn_self_eq: "turn_self v e self = (turn v (flags self) e, self)"
  using turn_self_fst [of v e self] keepsD [OF turn_self_keeps, of v e self]
  by (cases "turn_self v e self") simp

lemma loop_self_eq: "loop_self v es self = (loop v (flags self) es, self)"
proof (induction es)
  case Nil
  then show ?case by simp
next
  case (Cons e es)
  then show ?case
    by (cases "turn v (flags self) e"; cases "loop v (flags self) es")
       (auto simp: turn_self_eq split: res.splits signal.splits)
qed

section \<open>Further facts used by the claims\<close>

lemma turn_exit_closed:
  assumes "stdin e = Line l" and "lower (strip l) \<in> set exit_words"
  shows "turn v s e =
     (if tts s then
        (case tts_say e of
           Spoken \<Rightarrow>
             (Ret Break,
              asked @ [Print ''Bot: Goodbye! Have a great day!'', Say ''Goodbye! Have a great day!'',
                       Print ''Goodbye!''])
         | TtsError msg \<Rightarrow>
             (Ret Break,
              asked @ [Print ''Bot: Goodbye! Have a great day!'', Say ''Goodbye! Have a great day!'',
                       Print (''Speech error: '' @ msg), Print ''Goodbye!''])
         | SayCtrlC \<Rightarrow>
             (case tts_farewell e of
                Spoken \<Rightarrow>
                  (Ret Break,
                   asked @ [Print ''Bot: Goodbye! Have a great day!'', Say ''Goodbye! Have a great day!'',
                            Print ''Bot: Goodbye!'', Say ''Goodbye!'', Print (nl # ''Goodbye!'')])
              | TtsError msg \<Rightarrow>
                  (Ret Break,
                   asked @ [Print ''Bot: Goodbye! Have a great day!'', Say ''Goodbye! Have a great day!'',
                            Print ''Bot: Goodbye!'', Say ''Goodbye!'',
                            Print (''Speech error: '' @ msg), Print (nl # ''Goodbye!'')])
              | SayCtrlC \<Rightarrow>
                  (Raise KeyboardInterrupt,
                   asked @ [Print ''Bot: Goodbye! Have a great day!'', Say ''Goodbye! Have a great day!'',
                            Print ''Bot: Goodbye!'', Say ''Goodbye!''])))
      else (Ret Break, asked @ [Print ''Bot: Goodbye! Have a great day!'', Print ''Goodbye!'']))"
proof (cases "tts s \<and> tts_say e = SayCtrlC")
  case True
  then have "body v s e =
      (Raise KeyboardInterrupt,
       asked @ [Print ''Bot: Goodbye! Have a great day!'', Say ''Goodbye! Have a great day!''])"
    by (simp add: body_exit [OF assms] speak_closed)
  from turn_interrupted [OF this] True show ?thesis
    by (simp add: speak_closed split: tts_reply.splits)
next
  case False
  show ?thesis
  proof (cases "tts s")
    case nt: False
    then have "body v s e = (Ret Break, asked @ [Print ''Bot: Goodbye! Have a great day!'', Print ''Goodbye!''])"
      by (simp add: body_exit [OF assms] speak_closed)
    from turn_Ret [OF this] nt show ?thesis by simp
  next
    case True
    with False have ns: "tts_say e \<noteq> SayCtrlC" by simp
    show ?thesis
    proof (cases "tts_say e")
      case Spoken
      with True have "body v s e =
          (Ret Break,
           asked @ [Print ''Bot: Goodbye! Have a great day!'', Say ''Goodbye! Have a great day!'',
                    Print ''Goodbye!''])"
        by (simp add: body_exit [OF assms] speak_closed)
      from turn_Ret [OF this] True Spoken show ?thesis by simp
    next
      case (TtsError msg)
      with True have "body v s e =
          (Ret Break,
           asked @ [Print ''Bot: Goodbye! Have a great day!'', Say ''Goodbye! Have a great day!'',
                    Print (''Speech error: '' @ msg), Print ''Goodbye!''])"
        by (simp add: body_exit [OF assms] speak_closed)
      from turn_Ret [OF this] True TtsError show ?thesis by simp
    next
      case SayCtrlC
      with ns show ?thesis by simp
    qed
  qed
qed

lemma main_no_key:
  assumes "GOOGLE_API_KEY (startup w) = None \<or> GOOGLE_API_KEY (startup w) = Some []"
  shows "fst (main v w argv) = Ended \<and> list_all is_Print (snd (main v w argv))"
proof -
  obtain r evs where i: "init v (startup w) = (r, evs)" by (cases "init v (startup w)")
  from init_no_key [OF assms, of v] i
  have r: "r = Raise (Exception ''GOOGLE_API_KEY not found in .env file'')" by simp
  from init_prints [of v "startup w"] i have "list_all is_Print evs" by simp
  with main_init_failed [of v w _ evs argv] i r show ?thesis
    by (simp add: tips_def)
qed

lemma try_except_events: "set (snd m) \<subseteq> set (snd (try_except m h))"
proof (cases m)
  case (Pair r evs)
  then show ?thesis
    by (cases r; cases "h (case r of Raise x \<Rightarrow> x)") (auto split: option.splits)
qed

lemma turn_voice_heard:
  assumes "stdin e = Line l" and "lower (strip l) = ''voice''" and "voice_input s"
    and "listen v s e = (Ret r, evs)" and "heard r"
  shows "turn v s e =
           try_except
             (io_then
                (Ret (), asked @ Print ''Switching to voice input - speak now...'' # evs
                          @ [Print (''Voice input received: '' @ the r)])
                (process s e (the r)))
             (handlers s e)"
  using assms(4,5) by (simp add: turn_def body_voice_enabled [OF assms(1,2,3)])

lemma turn_voice_heard_uninterrupted:
  assumes "stdin e = Line l" and "lower (strip l) = ''voice''" and "voice_input s"
    and "listen v s e = (Ret r, evs)" and "heard r" and "uninterrupted e"
  shows "turn v s e =
           (Ret Continue,
            asked @ Print ''Switching to voice input - speak now...'' # evs
              @ Print (''Voice input received: '' @ the r) # snd (process s e (the r)))"
  using assms(4,5)
  by (simp add: turn_def body_voice_enabled [OF assms(1,2,3)] process_uninterrupted [OF assms(6)])


lemma prints_only:
  assumes "list_all is_Print evs"
  shows "filter is_Invoke evs = []" and "ReadLine \<notin> set evs"
proof -
  have "\<not> is_Invoke ev \<and> ev \<noteq> ReadLine" if "ev \<in> set evs" for ev
    using assms that by (cases ev) (auto simp: list_all_iff)
  then show "filter is_Invoke evs = []" and "ReadLine \<notin> set evs"
    by (auto simp: filter_empty_conv)
qed

lemma run_single_command_prints_response:
  assumes "uninterrupted e"
  shows "Print (nl # ''Bot: '' @ reply_text (llm e)) \<in> set (snd (run_single_command s e c))"
proof -
  from assms have "fst (get_response e c) = Ret (reply_text (llm e))"
    by (simp add: uninterrupted_def get_response_returns)
  with assms show ?thesis
    by (cases "get_response e c")
       (auto simp: run_single_command_cases uninterrupted_def split: tts_reply.splits)
qed

lemma main_after_init:
  assumes "init v (startup w) = (Ret s, evs)"
  shows
   "(1 < length argv \<longrightarrow>
       main v w argv =
         (case run_single_command s (command_env w) (join '' '' (tl argv)) of
            (Ret response, evs') \<Rightarrow> (Ended, Print (opening_line v) # evs @ evs')
          | (Raise x, evs') \<Rightarrow> (Escaped x, Print (opening_line v) # evs @ evs'))
       \<and> fst (main v w argv) \<noteq> AwaitingInput
       \<and> ReadLine \<notin> set (snd (main v w argv))
       \<and> length (filter is_Invoke (snd (main v w argv))) \<le> 1
       \<and> (uninterrupted (command_env w) \<longrightarrow>
            fst (main v w argv) = Ended
            \<and> length (filter is_Invoke (snd (main v w argv))) = 1
            \<and> Print (nl # ''Bot: '' @ reply_text (llm (command_env w))) \<in> set (snd (main v w argv))))
    \<and> (length argv \<le> 1 \<longrightarrow>
         main v w argv =
           (fst (run_interactive v s (greeting w) (script w)),
            Print (opening_line v) # evs @ snd (run_interactive v s (greeting w) (script w))))"
proof -
  let ?c = "join '' '' (tl argv)"
  let ?e = "command_env w"
  from init_prints [of v "startup w"] assms have pr: "list_all is_Print evs" by simp
  note po = prints_only [OF pr]
  have A: "main v w argv =
         (case run_single_command s ?e ?c of
            (Ret response, evs') \<Rightarrow> (Ended, Print (opening_line v) # evs @ evs')
          | (Raise x, evs') \<Rightarrow> (Escaped x, Print (opening_line v) # evs @ evs'))
       \<and> fst (main v w argv) \<noteq> AwaitingInput
       \<and> ReadLine \<notin> set (snd (main v w argv))
       \<and> length (filter is_Invoke (snd (main v w argv))) \<le> 1
       \<and> (uninterrupted ?e \<longrightarrow>
            fst (main v w argv) = Ended
            \<and> length (filter is_Invoke (snd (main v w argv))) = 1
            \<and> Print (nl # ''Bot: '' @ reply_text (llm ?e)) \<in> set (snd (main v w argv)))"
    if len: "1 < length argv"
  proof -
    note m = main_single [OF assms len]
    obtain r evs' where rs: "run_single_command s ?e ?c = (r, evs')"
      by (cases "run_single_command s ?e ?c")
    have sn: "snd (main v w argv) = Print (opening_line v) # evs @ evs'"
      using m rs by (cases r) simp_all
    have st: "fst (main v w argv) = (case r of Ret a \<Rightarrow> Ended | Raise x \<Rightarrow> Escaped x)"
      using m rs by (cases r) simp_all
    have 1: "fst (main v w argv) \<noteq> AwaitingInput"
      using st by (cases r) simp_all
    have 2: "ReadLine \<notin> set (snd (main v w argv))"
      using run_single_command_no_readline [of s ?e ?c] rs po(2) by (simp add: sn)
    have inv: "filter is_Invoke (snd (main v w argv)) = filter is_Invoke (snd (get_response ?e ?c))"
      using run_single_command_invokes [of s ?e ?c] rs po(1) by (simp add: sn)
    have 3: "length (filter is_Invoke (snd (main v w argv))) \<le> 1"
      using get_response_invoke_count [of ?e ?c] by (simp add: inv)
    have 4: "fst (main v w argv) = Ended
            \<and> length (filter is_Invoke (snd (main v w argv))) = 1
            \<and> Print (nl # ''Bot: '' @ reply_text (llm ?e)) \<in> set (snd (main v w argv))"
      if un: "uninterrupted ?e"
    proof -
      from run_single_command_returns [OF un, of s ?c] rs have "r = Ret (reply_text (llm ?e))"
        by simp
      then have a: "fst (main v w argv) = Ended" by (simp add: st)
      from un have b: "length (filter is_Invoke (snd (main v w argv))) = 1"
        by (simp add: inv uninterrupted_def get_response_invoke_once)
      from run_single_command_prints_response [OF un, of s ?c] rs
      have c: "Print (nl # ''Bot: '' @ reply_text (llm ?e)) \<in> set (snd (main v w argv))"
        by (simp add: sn)
      from a b c show ?thesis by blast
    qed
    from m 1 2 3 4 show ?thesis by blast
  qed
  have B: "main v w argv =
           (fst (run_interactive v s (greeting w) (script w)),
            Print (opening_line v) # evs @ snd (run_interactive v s (greeting w) (script w)))"
    if "length argv \<le> 1"
    using main_interactive [OF assms that] .
  from A B show ?thesis by blast
qed

lemma get_response_invoke_mem:
  assumes "http e \<noteq> PostCtrlC"
  shows "\<exists>w. Invoke (system_message (today e)) (prompt_of q w) \<in> set (snd (get_response e q))"
proof (cases "augment e q")
  case (Pair r evs)
  show ?thesis
  proof (cases r)
    case (Ret w)
    with Pair have "Invoke (system_message (today e)) (prompt_of q w) \<in> set (snd (get_response e q))"
      by (simp add: get_response_augment split: llm_reply.splits)
    then show ?thesis by blast
  next
    case (Raise x)
    with Pair assms show ?thesis using augment_raises by blast
  qed
qed

lemma process_keeps_get_response: "set (snd (get_response e u)) \<subseteq> set (snd (process s e u))"
proof (cases "get_response e u")
  case (Pair r evs)
  show ?thesis
  proof (cases r)
    case (Ret a)
    with Pair show ?thesis
      by (cases "render s e a") (auto simp: process_cases split: res.splits)
  next
    case (Raise x)
    with Pair show ?thesis by (auto simp: process_cases)
  qed
qed

lemma demo_continues: "fst (turn v demo_session demo_env) = Ret Continue"
proof -
  have a: "no_ctrl_c demo_env"
    by (simp add: no_ctrl_c_def uninterrupted_def demo_env_def microphone_sources_def)
  have "lower (strip ''What is the weather today?'') \<notin> set exit_words" by code_simp
  then have "\<not> exit_typed demo_env" by (simp add: exit_typed_def demo_env_def)
  with a show ?thesis by (rule turn_continues)
qed

lemma flags_demo_bot: "flags demo_bot = demo_session"
  by (simp add: flags_def demo_bot_def demo_session_def session.truncate_def)



lemma strip_quit: "strip '' quit '' = ''quit''"
  by code_simp

lemma listen_quit:
  "listen Base demo_session (voice_env '' quit '')
     = (Ret (Some ''quit''),
        [Print (nl # ''Listening... (speak now or press Ctrl+C for text input)''), Capture 0,
         Print ''Converting speech to text...'', Print ''You said:  quit ''])"
  by (simp add: listen_Base_closed capture_on_closed announce_def voice_env_def
        demo_session_def strip_quit)

lemma get_response_quit:
  "get_response (voice_env '' quit '') ''quit''
     = (Ret ''It is sunny today.'',
        [Invoke (system_message ''November 03, 2026'') (prompt_of ''quit'' None)])"
proof -
  have "\<not> needs_search ''quit''" by code_simp
  then show ?thesis
    by (simp add: get_response_augment augment_def io_defs voice_env_def demo_env_def)
qed

lemma demo_init:
  "init Base (startup demo_world)
     = (Ret demo_session,
        [Print ''Speech recognition enabled'', Print ''Text-to-speech enabled'',
         Print ''Full voice interaction mode'', Print ''Complete Voice Chatbot ready!''])"
  by (simp add: init_def init_voice_def init_tts_def status_report_def io_defs demo_world_def
        demo_startup_def demo_session_def)

lemma demo_command: "join '' '' (tl demo_argv) = ''tell me a joke''"
  by (simp add: demo_argv_def)

section \<open>The claims\<close>

text \<open>
  Claim C1. \<open>needs_search s\<close> holds exactly when the lower-cased \<open>s\<close> contains one of
  the markers as a substring. The list has 20 entries, the answer is that of the first
  marker found (\<open>find\<close>), and it does not change when \<open>s\<close> is lower-cased first: the
  test is insensitive to case.
\<close>

theorem needs_search_iff_marker:
  "(needs_search s \<longleftrightarrow> (\<exists>m \<in> set search_indicators. \<exists>ps ss. lower s = ps @ m @ ss))
   \<and> length search_indicators = 20
   \<and> needs_search s = (find (str_contains (lower s)) search_indicators \<noteq> None)
   \<and> needs_search (lower s) = needs_search s"
proof -
  have 1: "needs_search s \<longleftrightarrow> (\<exists>m \<in> set search_indicators. \<exists>ps ss. lower s = ps @ m @ ss)"
    by (simp add: needs_search_def any_indicator_iff str_contains_iff)
  have 2: "length search_indicators = 20"
    by (simp add: search_indicators_def)
  have 3: "needs_search s = (find (str_contains (lower s)) search_indicators \<noteq> None)"
    by (simp add: needs_search_def any_indicator_find split: option.splits)
  have 4: "needs_search (lower s) = needs_search s"
    by (simp add: needs_search_def lower_idem)
  from 1 2 3 4 show ?thesis by blast
qed

theorem needs_search_iff_marker_witness:
  "needs_search ''What is the WEATHER like?''
   \<and> (\<exists>m \<in> set search_indicators. \<exists>ps ss. lower ''What is the WEATHER like?'' = ps @ m @ ss)
   \<and> \<not> needs_search ''Tell me a joke''
   \<and> \<not> (\<exists>m \<in> set search_indicators. \<exists>ps ss. lower ''Tell me a joke'' = ps @ m @ ss)"
proof -
  have a: "needs_search ''What is the WEATHER like?''" by code_simp
  have b: "\<not> needs_search ''Tell me a joke''" by code_simp
  from a b show ?thesis
    using needs_search_iff_marker [of "''What is the WEATHER like?''"]
      needs_search_iff_marker [of "''Tell me a joke''"]
    by blast
qed

text \<open>
  Claim C2. With a credential configured and a response of the service's format,
  \<open>search_web\<close> issues one request and returns what the specification describes: the
  knowledge-panel description if present, then the snippets of the first two organic
  results without the empty ones, joined by single spaces, and \<open>None\<close> when there is no
  fragment. On the mocked response with the snippets A, B and C the result is \<open>A B\<close>.
\<close>

theorem search_web_extracts:
  assumes "serper_key e = Some k" and "k \<noteq> []" and "http e = Body data" and "wf_response data"
  shows "search_web e q = (Ret (spec_search_result data), [Post q])"
  using assms by (simp add: search_web_closed collect_results_wf)

theorem search_web_extracts_witness:
  "serper_key demo_env = Some ''key'' \<and> ''key'' \<noteq> [] \<and> http demo_env = Body mock_response
   \<and> wf_response mock_response
   \<and> search_web demo_env ''weather'' = (Ret (Some ''A B''), [Post ''weather''])"
proof -
  have a: "serper_key demo_env = Some ''key''" and b: "''key'' \<noteq> []"
    and c: "http demo_env = Body mock_response"
    by (simp_all add: demo_env_def)
  have d: "wf_response mock_response"
    by (simp add: wf_response_def wf_result_def mock_response_def)
  have e: "spec_search_result mock_response = Some ''A B''"
    by (simp add: spec_search_result_def spec_fragments_def spec_description_def
          spec_snippets_def spec_snippet_def mock_response_def)
  from search_web_extracts [OF a b c d, of "''weather''"] a b c d e show ?thesis by simp
qed

text \<open>
  Claim C3. Without a search credential (the variable is unset or empty) \<open>search_web\<close>
  returns \<open>None\<close> for every query, does not raise, and has no effect: no request is
  sent and nothing is printed.
\<close>

theorem search_web_no_credential:
  assumes "serper_key e = None \<or> serper_key e = Some []"
  shows "search_web e q = (Ret None, [])"
  using assms by (auto simp: search_web_closed)

theorem search_web_no_credential_witness:
  "serper_key (demo_env\<lparr>serper_key := None\<rparr>) = None
   \<and> search_web (demo_env\<lparr>serper_key := None\<rparr>) ''latest cricket news'' = (Ret None, [])"
proof -
  have a: "serper_key (demo_env\<lparr>serper_key := None\<rparr>) = None" by simp
  then have "serper_key (demo_env\<lparr>serper_key := None\<rparr>) = None
             \<or> serper_key (demo_env\<lparr>serper_key := None\<rparr>) = Some []" by simp
  from search_web_no_credential [OF this, of "''latest cricket news''"] a show ?thesis by simp
qed

text \<open>
  Claim C4. When every capture that \<open>listen\<close> attempts ends in a failure mode (device
  error, timeout, unintelligible audio, failed request), \<open>listen\<close> returns \<open>None\<close>
  and raises nothing, in both variants. \<open>get_input\<close> with \<open>prefer_voice = True\<close> then
  gives the result of \<open>get_text_input\<close>: the trimmed line when a line is typed. Its
  trace is that of the failed capture, the notice of the switch, and that of
  \<open>get_text_input\<close>.
\<close>

theorem capture_failure_falls_back:
  "(capture_fails v e \<longrightarrow> fst (listen v s e) = Ret None)
   \<and> (capture_fails Base e \<longrightarrow>
        fst (get_input s e True) = fst (get_text_input e)
        \<and> snd (get_input s e True)
            = (if voice_input s
               then snd (listen Base s e) @ [Print ''Switching to text input...''] else [])
              @ snd (get_text_input e)
        \<and> (\<forall>l. stdin e = Line l \<longrightarrow> fst (get_input s e True) = Ret (strip l)))"
proof -
  have 1: "fst (listen v s e) = Ret None" if "capture_fails v e"
    using that by (rule listen_failure)
  have 2: "fst (get_input s e True) = fst (get_text_input e)
        \<and> snd (get_input s e True)
            = (if voice_input s
               then snd (listen Base s e) @ [Print ''Switching to text input...''] else [])
              @ snd (get_text_input e)
        \<and> (\<forall>l. stdin e = Line l \<longrightarrow> fst (get_input s e True) = Ret (strip l))"
    if "capture_fails Base e"
  proof -
    from that have "fst (listen Base s e) = Ret None" by (rule listen_failure)
    from get_input_fallback [OF this] show ?thesis
      by (simp add: get_text_input_closed)
  qed
  from 1 2 show ?thesis by blast
qed

theorem capture_failure_falls_back_witness:
  "capture_fails Base demo_env \<and> capture_fails Conda demo_env
   \<and> fst (listen Base demo_session demo_env) = Ret None
   \<and> fst (listen Conda demo_session demo_env) = Ret None
   \<and> stdin demo_env = Line ''What is the weather today?''
   \<and> fst (get_text_input demo_env) = Ret ''What is the weather today?''
   \<and> fst (get_input demo_session demo_env True) = Ret ''What is the weather today?''"
proof -
  have a: "capture_fails Base demo_env" and b: "capture_fails Conda demo_env"
    by (simp_all add: capture_fails_def demo_env_def microphone_sources_def)
  have c: "stdin demo_env = Line ''What is the weather today?''"
    by (simp add: demo_env_def)
  have d: "strip ''What is the weather today?'' = ''What is the weather today?''"
    by code_simp
  have e: "fst (get_text_input demo_env) = Ret ''What is the weather today?''"
    by (simp add: get_text_input_closed c d)
  from capture_failure_falls_back [of Base demo_env demo_session]
    capture_failure_falls_back [of Conda demo_env demo_session] a b c d e
  show ?thesis by simp
qed

text \<open>
  Claim C5. When the typed line, trimmed and lower-cased, is one of \<open>quit\<close>, \<open>exit\<close>,
  \<open>stop\<close>, \<open>goodbye\<close>, \<open>bye\<close>, the loop prints the farewell (and speaks it when
  speech output is on) and ends: the rest of the script is never read. It ends by
  \<open>break\<close>, except when Ctrl-C interrupts both the farewell and the interrupt handler's
  own farewell; then \<open>KeyboardInterrupt\<close> leaves the loop.
\<close>

theorem exit_word_ends_session:
  assumes "stdin e = Line l" and "lower (strip l) \<in> set exit_words"
  shows "fst (loop v s (e # es))
           = (if tts s \<and> tts_say e = SayCtrlC \<and> tts_farewell e = SayCtrlC
              then Escaped KeyboardInterrupt else Ended)
       \<and> loop v s (e # es) = loop v s [e]
       \<and> take 3 (snd (loop v s (e # es))) = asked @ [Print ''Bot: Goodbye! Have a great day!'']
       \<and> (tts s \<longrightarrow> snd (loop v s (e # es)) ! 3 = Say ''Goodbye! Have a great day!'')"
  by (simp add: turn_exit_closed [OF assms] asked_def split: tts_reply.splits)

theorem exit_word_ends_session_witness:
  "lower (strip ''QUIT'') \<in> set exit_words
   \<and> lower (strip ''Bye'') \<in> set exit_words
   \<and> lower (strip ''  goodbye  '') \<in> set exit_words
   \<and> fst (loop Base demo_session [demo_env\<lparr>stdin := Line ''QUIT''\<rparr>, demo_env]) = Ended
   \<and> fst (loop Conda demo_session [demo_env\<lparr>stdin := Line ''Bye''\<rparr>, demo_env]) = Ended
   \<and> fst (loop Base demo_session [demo_env\<lparr>stdin := Line ''  goodbye  ''\<rparr>, demo_env]) = Ended"
proof -
  have a: "lower (strip ''QUIT'') \<in> set exit_words" by code_simp
  have b: "lower (strip ''Bye'') \<in> set exit_words" by code_simp
  have c: "lower (strip ''  goodbye  '') \<in> set exit_words" by code_simp
  have t: "tts_say demo_env = Spoken" by (simp add: demo_env_def)
  have s: "tts demo_session" by (simp add: demo_session_def)
  have 1: "fst (loop Base demo_session [demo_env\<lparr>stdin := Line ''QUIT''\<rparr>, demo_env]) = Ended"
    using exit_word_ends_session [of "demo_env\<lparr>stdin := Line ''QUIT''\<rparr>" "''QUIT''" Base
        demo_session "[demo_env]", THEN conjunct1] a t s
    by (simp del: loop.simps)
  have 2: "fst (loop Conda demo_session [demo_env\<lparr>stdin := Line ''Bye''\<rparr>, demo_env]) = Ended"
    using exit_word_ends_session [of "demo_env\<lparr>stdin := Line ''Bye''\<rparr>" "''Bye''" Conda
        demo_session "[demo_env]", THEN conjunct1] b t s
    by (simp del: loop.simps)
  have 3: "fst (loop Base demo_session [demo_env\<lparr>stdin := Line ''  goodbye  ''\<rparr>, demo_env]) = Ended"
    using exit_word_ends_session [of "demo_env\<lparr>stdin := Line ''  goodbye  ''\<rparr>" "''  goodbye  ''"
        Base demo_session "[demo_env]", THEN conjunct1] c t s
    by (simp del: loop.simps)
  from a b c 1 2 3 show ?thesis by blast
qed

text \<open>
  Claim C6. A failure of the language-model call makes \<open>get_response\<close> return the apology
  with the error's text; \<open>get_response\<close> never raises an \<open>Exception\<close> (only a Ctrl-C
  passes through). Whatever \<open>Exception\<close> the loop body raises is caught by the loop's
  handler, reported, and the turn continues the loop. Hence a turn without Ctrl-C and
  without an exit word always returns to waiting for input, and so does a whole script
  of such turns. A missing language-model credential ends \<open>main\<close> at start-up, after
  messages only, and it is the only outcome of the start-up probes that makes the
  constructor raise.
\<close>

theorem failures_never_end_session:
  "(llm e = LLMError msg \<and> http e \<noteq> PostCtrlC \<longrightarrow>
      fst (get_response e q) = Ret (''Sorry, I had an error: '' @ msg))
   \<and> (\<forall>x evs. get_response e q = (Raise x, evs) \<longrightarrow> x = KeyboardInterrupt)
   \<and> (\<forall>x evs. body v s e = (Raise x, evs) \<and> is_Exception x \<longrightarrow>
         turn v s e =
           (Ret Continue,
            evs @ [Print (''Error: '' @ str_of x), Print ''Please try again or type 'quit' to exit'']))
   \<and> (no_ctrl_c e \<and> \<not> exit_typed e \<longrightarrow> fst (turn v s e) = Ret Continue)
   \<and> (list_all (\<lambda>e. no_ctrl_c e \<and> \<not> exit_typed e) es \<longrightarrow> fst (loop v s es) = AwaitingInput)
   \<and> (GOOGLE_API_KEY (startup w) = None \<or> GOOGLE_API_KEY (startup w) = Some [] \<longrightarrow>
        fst (main v w argv) = Ended \<and> list_all is_Print (snd (main v w argv)))
   \<and> ((\<exists>x evs. init v (startup w) = (Raise x, evs))
        \<longleftrightarrow> (GOOGLE_API_KEY (startup w) = None \<or> GOOGLE_API_KEY (startup w) = Some []))"
proof -
  have 1: "fst (get_response e q) = Ret (''Sorry, I had an error: '' @ msg)"
    if "llm e = LLMError msg \<and> http e \<noteq> PostCtrlC"
    using that get_response_returns [of e q] by simp
  have 2: "x = KeyboardInterrupt" if "get_response e q = (Raise x, evs)" for x evs
    using get_response_raises [OF that] by simp
  have 3: "turn v s e =
           (Ret Continue,
            evs @ [Print (''Error: '' @ str_of x), Print ''Please try again or type 'quit' to exit''])"
    if "body v s e = (Raise x, evs) \<and> is_Exception x" for x evs
    using that turn_Exception by blast
  have 4: "fst (turn v s e) = Ret Continue" if "no_ctrl_c e \<and> \<not> exit_typed e"
    using that turn_continues by blast
  have 5: "fst (loop v s es) = AwaitingInput"
    if "list_all (\<lambda>e. no_ctrl_c e \<and> \<not> exit_typed e) es"
  proof -
    from that have "list_all (\<lambda>e. fst (turn v s e) = Ret Continue) es"
      by (auto simp: list_all_iff intro: turn_continues)
    then show ?thesis by (rule loop_all_continue)
  qed
  have 6: "fst (main v w argv) = Ended \<and> list_all is_Print (snd (main v w argv))"
    if "GOOGLE_API_KEY (startup w) = None \<or> GOOGLE_API_KEY (startup w) = Some []"
    using that by (rule main_no_key)
  note 7 = init_raises_iff [of v "startup w"]
  from 1 2 3 4 5 6 7 show ?thesis by blast
qed

theorem failures_never_end_session_witness:
  "llm (demo_env\<lparr>llm := LLMError ''quota exceeded''\<rparr>) = LLMError ''quota exceeded''
   \<and> http (demo_env\<lparr>llm := LLMError ''quota exceeded''\<rparr>) \<noteq> PostCtrlC
   \<and> fst (get_response (demo_env\<lparr>llm := LLMError ''quota exceeded''\<rparr>) ''hello'')
       = Ret ''Sorry, I had an error: quota exceeded''
   \<and> body Base demo_session (demo_env\<lparr>stdin := EOF\<rparr>)
       = (Raise (Exception ''EOF when reading a line''), asked)
   \<and> is_Exception (Exception ''EOF when reading a line'')
   \<and> turn Base demo_session (demo_env\<lparr>stdin := EOF\<rparr>)
       = (Ret Continue,
          asked @ [Print ''Error: EOF when reading a line'',
                   Print ''Please try again or type 'quit' to exit''])
   \<and> no_ctrl_c (demo_env\<lparr>llm := LLMError ''quota exceeded''\<rparr>)
   \<and> \<not> exit_typed (demo_env\<lparr>llm := LLMError ''quota exceeded''\<rparr>)
   \<and> fst (turn Base demo_session (demo_env\<lparr>llm := LLMError ''quota exceeded''\<rparr>)) = Ret Continue
   \<and> fst (loop Conda demo_session
            [demo_env\<lparr>llm := LLMError ''quota exceeded''\<rparr>,
             demo_env\<lparr>llm := LLMError ''quota exceeded''\<rparr>]) = AwaitingInput
   \<and> GOOGLE_API_KEY (startup (demo_world\<lparr>startup := demo_startup\<lparr>GOOGLE_API_KEY := None\<rparr>\<rparr>)) = None
   \<and> fst (main Base (demo_world\<lparr>startup := demo_startup\<lparr>GOOGLE_API_KEY := None\<rparr>\<rparr>) [''prog''])
       = Ended"
proof -
  let ?e = "demo_env\<lparr>llm := LLMError ''quota exceeded''\<rparr>"
  let ?eof = "demo_env\<lparr>stdin := EOF\<rparr>"
  let ?w = "demo_world\<lparr>startup := demo_startup\<lparr>GOOGLE_API_KEY := None\<rparr>\<rparr>"
  note T = failures_never_end_session
  have a: "llm ?e = LLMError ''quota exceeded'' \<and> http ?e \<noteq> PostCtrlC"
    by (simp add: demo_env_def)
  have b: "body Base demo_session ?eof = (Raise (Exception ''EOF when reading a line''), asked)
           \<and> is_Exception (Exception ''EOF when reading a line'')"
    by (simp add: body_eof)
  have c: "no_ctrl_c ?e"
    by (simp add: no_ctrl_c_def uninterrupted_def demo_env_def microphone_sources_def)
  have "lower (strip ''What is the weather today?'') \<notin> set exit_words" by code_simp
  then have d: "\<not> exit_typed ?e" by (simp add: exit_typed_def demo_env_def)
  have f: "GOOGLE_API_KEY (startup ?w) = None" by simp
  have 1: "fst (get_response ?e ''hello'') = Ret ''Sorry, I had an error: quota exceeded''"
    using T [of ?e "''quota exceeded''" "''hello''" Base demo_session "[]" ?w "[]",
        THEN conjunct1] a by simp
  have 3: "turn Base demo_session ?eof
       = (Ret Continue,
          asked @ [Print ''Error: EOF when reading a line'',
                   Print ''Please try again or type 'quit' to exit''])"
    using T [of ?eof "''m''" "''hello''" Base demo_session "[]" ?w "[]",
        THEN conjunct2, THEN conjunct2, THEN conjunct1] b by auto
  have 4: "fst (turn Base demo_session ?e) = Ret Continue"
    using T [of ?e "''m''" "''hello''" Base demo_session "[]" ?w "[]",
        THEN conjunct2, THEN conjunct2, THEN conjunct2, THEN conjunct1] c d by simp
  have 5: "fst (loop Conda demo_session [?e, ?e]) = AwaitingInput"
    using T [of ?e "''m''" "''hello''" Conda demo_session "[?e, ?e]" ?w "[]",
        THEN conjunct2, THEN conjunct2, THEN conjunct2, THEN conjunct2, THEN conjunct1] c d
    by (simp del: loop.simps)
  have 6: "fst (main Base ?w [''prog'']) = Ended"
    using T [of ?e "''m''" "''hello''" Base demo_session "[]" ?w "[''prog'']",
        THEN conjunct2, THEN conjunct2, THEN conjunct2, THEN conjunct2, THEN conjunct2,
        THEN conjunct1] f
    by simp
  from a b c d f 1 3 4 5 6 show ?thesis by blast
qed




text \<open>
  Claim C8. Called with one or more arguments, \<open>main\<close> never reads the terminal (the
  interactive loop starts every turn by reading a line), sends at most one request to
  the language model, and terminates. After a successful start-up it joins the arguments
  with single spaces and runs \<open>run_single_command\<close> on that one string: its trace is
  the start-up's followed by that of the command. If no Ctrl-C interrupts the command
  there is exactly one request, the response is printed, and \<open>main\<close> returns normally.
  With no argument \<open>main\<close> runs \<open>run_interactive\<close>.
\<close>

theorem one_shot_command:
  "(1 < length argv \<longrightarrow>
       fst (main v w argv) \<noteq> AwaitingInput
       \<and> ReadLine \<notin> set (snd (main v w argv))
       \<and> length (filter is_Invoke (snd (main v w argv))) \<le> 1)
   \<and> (init v (startup w) = (Ret s, evs) \<and> 1 < length argv \<longrightarrow>
         main v w argv =
           (case run_single_command s (command_env w) (join '' '' (tl argv)) of
              (Ret response, evs') \<Rightarrow> (Ended, Print (opening_line v) # evs @ evs')
            | (Raise x, evs') \<Rightarrow> (Escaped x, Print (opening_line v) # evs @ evs'))
         \<and> (uninterrupted (command_env w) \<longrightarrow>
              fst (main v w argv) = Ended
              \<and> length (filter is_Invoke (snd (main v w argv))) = 1
              \<and> Print (nl # ''Bot: '' @ reply_text (llm (command_env w)))
                  \<in> set (snd (main v w argv))))
   \<and> (init v (startup w) = (Ret s, evs) \<and> length argv \<le> 1 \<longrightarrow>
         main v w argv =
           (fst (run_interactive v s (greeting w) (script w)),
            Print (opening_line v) # evs @ snd (run_interactive v s (greeting w) (script w))))"
proof -
  have A: "fst (main v w argv) \<noteq> AwaitingInput
       \<and> ReadLine \<notin> set (snd (main v w argv))
       \<and> length (filter is_Invoke (snd (main v w argv))) \<le> 1"
    if len: "1 < length argv"
  proof (cases "init v (startup w)")
    case (Pair r evs0)
    show ?thesis
    proof (cases r)
      case (Ret s0)
      with Pair have "init v (startup w) = (Ret s0, evs0)" by simp
      from main_after_init [OF this, of argv] len show ?thesis by blast
    next
      case (Raise x)
      with Pair have i: "init v (startup w) = (Raise x, evs0)" by simp
      from init_prints [of v "startup w"] i have "list_all is_Print evs0" by simp
      then have "list_all is_Print (Print (opening_line v) # evs0 @ tips v x)"
        by (simp add: tips_def)
      from prints_only [OF this] show ?thesis
        by (simp add: main_init_failed [OF i])
    qed
  qed
  have B: "main v w argv =
           (case run_single_command s (command_env w) (join '' '' (tl argv)) of
              (Ret response, evs') \<Rightarrow> (Ended, Print (opening_line v) # evs @ evs')
            | (Raise x, evs') \<Rightarrow> (Escaped x, Print (opening_line v) # evs @ evs'))
         \<and> (uninterrupted (command_env w) \<longrightarrow>
              fst (main v w argv) = Ended
              \<and> length (filter is_Invoke (snd (main v w argv))) = 1
              \<and> Print (nl # ''Bot: '' @ reply_text (llm (command_env w)))
                  \<in> set (snd (main v w argv)))"
    if "init v (startup w) = (Ret s, evs) \<and> 1 < length argv"
  proof -
    from that have i: "init v (startup w) = (Ret s, evs)" and len: "1 < length argv"
      by simp_all
    from main_after_init [OF i, of argv] len show ?thesis by blast
  qed
  have C: "main v w argv =
           (fst (run_interactive v s (greeting w) (script w)),
            Print (opening_line v) # evs @ snd (run_interactive v s (greeting w) (script w)))"
    if "init v (startup w) = (Ret s, evs) \<and> length argv \<le> 1"
  proof -
    from that have i: "init v (startup w) = (Ret s, evs)" and len: "length argv \<le> 1"
      by simp_all
    from main_after_init [OF i, of argv] len show ?thesis by blast
  qed
  from A B C show ?thesis by blast
qed

theorem one_shot_command_witness:
  "init Base (startup demo_world)
     = (Ret demo_session,
        [Print ''Speech recognition enabled'', Print ''Text-to-speech enabled'',
         Print ''Full voice interaction mode'', Print ''Complete Voice Chatbot ready!''])
   \<and> 1 < length demo_argv
   \<and> join '' '' (tl demo_argv) = ''tell me a joke''
   \<and> uninterrupted (command_env demo_world)
   \<and> fst (main Base demo_world demo_argv) = Ended
   \<and> snd (main Base demo_world demo_argv)
       = Print (opening_line Base)
         # [Print ''Speech recognition enabled'', Print ''Text-to-speech enabled'',
            Print ''Full voice interaction mode'', Print ''Complete Voice Chatbot ready!'']
         @ snd (run_single_command demo_session demo_env ''tell me a joke'')
   \<and> ReadLine \<notin> set (snd (main Base demo_world demo_argv))
   \<and> length (filter is_Invoke (snd (main Base demo_world demo_argv))) = 1
   \<and> Print (nl # ''Bot: It is sunny today.'') \<in> set (snd (main Base demo_world demo_argv))
   \<and> length [''chatbot.py''] \<le> 1
   \<and> main Base demo_world [''chatbot.py'']
       = (fst (run_interactive Base demo_session Spoken [demo_env]),
          Print (opening_line Base)
          # [Print ''Speech recognition enabled'', Print ''Text-to-speech enabled'',
             Print ''Full voice interaction mode'', Print ''Complete Voice Chatbot ready!'']
          @ snd (run_interactive Base demo_session Spoken [demo_env]))"
proof -
  let ?evs = "[Print ''Speech recognition enabled'', Print ''Text-to-speech enabled'',
         Print ''Full voice interaction mode'', Print ''Complete Voice Chatbot ready!'']"
  note T = one_shot_command [of _ Base demo_world demo_session ?evs]
  have a: "1 < length demo_argv" by (simp add: demo_argv_def)
  have b: "uninterrupted (command_env demo_world)"
    by (simp add: uninterrupted_def demo_world_def demo_env_def)
  have c: "command_env demo_world = demo_env" by (simp add: demo_world_def)
  have d: "reply_text (llm demo_env) = ''It is sunny today.''" by (simp add: demo_env_def)
  have e: "length [''chatbot.py''] \<le> 1" by simp
  have g: "greeting demo_world = Spoken" "script demo_world = [demo_env]"
    by (simp_all add: demo_world_def)
  have ia: "init Base (startup demo_world) = (Ret demo_session, ?evs) \<and> 1 < length demo_argv"
    using demo_init a by blast
  have ie: "init Base (startup demo_world) = (Ret demo_session, ?evs) \<and> length [''chatbot.py''] \<le> 1"
    using demo_init e by blast
  note N = T [of demo_argv, THEN conjunct1, rule_format, OF a]
  note A = T [of demo_argv, THEN conjunct2, THEN conjunct1, rule_format, OF ia]
  note U = A [THEN conjunct2, rule_format, OF b]
  have 1: "fst (main Base demo_world demo_argv) = Ended" using U [THEN conjunct1] .
  have 2: "snd (main Base demo_world demo_argv)
       = Print (opening_line Base) # ?evs
         @ snd (run_single_command demo_session demo_env ''tell me a joke'')"
    using A [THEN conjunct1]
    by (cases "run_single_command demo_session demo_env ''tell me a joke''")
       (auto simp: c demo_command split: res.splits)
  have 3: "ReadLine \<notin> set (snd (main Base demo_world demo_argv))"
    using N [THEN conjunct2, THEN conjunct1] .
  have 4: "length (filter is_Invoke (snd (main Base demo_world demo_argv))) = 1"
    using U [THEN conjunct2, THEN conjunct1] .
  have 5: "Print (nl # ''Bot: It is sunny today.'') \<in> set (snd (main Base demo_world demo_argv))"
    using U [THEN conjunct2, THEN conjunct2] by (simp add: c d)
  have 6: "main Base demo_world [''chatbot.py'']
       = (fst (run_interactive Base demo_session Spoken [demo_env]),
          Print (opening_line Base) # ?evs
          @ snd (run_interactive Base demo_session Spoken [demo_env]))"
    using T [of "[''chatbot.py'']", THEN conjunct2, THEN conjunct2, rule_format, OF ie]
    by (simp add: g)
  from demo_init a demo_command b e 1 2 3 4 5 6 show ?thesis by blast
qed

text \<open>
  Claim C9. A turn, run as a method of the object, gives the object back as it got it,
  with every attribute (flags, key, recogniser, microphone, speech engine, model client)
  unchanged, and does what \<open>turn\<close> does on the object's flags; so does the loop after
  any number of turns, which hands each turn the object the turn before gave back. After
  any history that left the loop waiting for input, one more turn adds exactly what it
  does on its own. \<open>get_response\<close> changes no attribute, and what it does depends on the
  question and on the outside world's answers alone (credential, search reply, date,
  model reply): not on the object it is run on, which is all that a history could have
  changed. No turn asks the model more than once; an utterance that reaches \<open>process\<close>
  is asked once, unless Ctrl-C stops the search before; a turn with a typed question, not
  interrupted, asks it once and renders the one response \<open>get_response\<close> returned.
  A turn that resolves no utterance (empty line, exit word, failed capture) asks nothing.
  What the libraries keep inside the recogniser and the speech engine is outside the two
  files and outside these statements.
\<close>

theorem turns_are_independent:
  "turn_self v e self = (turn v (flags self) e, self)
   \<and> loop_self v es self = (loop v (flags self) es, self)
   \<and> (fst (fst (loop_self v h self)) = AwaitingInput \<longrightarrow>
        loop_self v (h @ [e]) self
          = ((fst (fst (loop_self v [e] self)),
              snd (fst (loop_self v h self)) @ snd (fst (loop_self v [e] self))), self))
   \<and> get_response_self e q self = (get_response e q, self)
   \<and> (serper_key e' = serper_key e \<and> http e' = http e \<and> today e' = today e \<and> llm e' = llm e \<longrightarrow>
        fst (get_response_self e' q self') = fst (get_response_self e q self))
   \<and> length (filter is_Invoke (snd (turn v s e))) \<le> 1
   \<and> (http e \<noteq> PostCtrlC \<longrightarrow> length (filter is_Invoke (snd (process s e u))) = 1)
   \<and> (stdin e = Line l \<and> strip l \<noteq> [] \<and> lower (strip l) \<notin> set exit_words
        \<and> lower (strip l) \<noteq> ''voice'' \<and> uninterrupted e \<longrightarrow>
        turn v s e =
          (Ret Continue,
           asked @ Print ''Processing your question...'' # snd (get_response e (strip l))
             @ snd (render s e (reply_text (llm e))) @ [Print (replicate 50 (CHR ''-''))])
        \<and> fst (get_response e (strip l)) = Ret (reply_text (llm e))
        \<and> length (filter is_Invoke (snd (turn v s e))) = 1)"
proof -
  have g: "get_response_self e q self = (get_response e q, self)" for e q self
    using get_response_self_fst [of e q self] keepsD [OF get_response_self_keeps, of e q self]
    by (cases "get_response_self e q self") simp
  have 1: "loop_self v (h @ [e]) self
          = ((fst (fst (loop_self v [e] self)),
              snd (fst (loop_self v h self)) @ snd (fst (loop_self v [e] self))), self)"
    if "fst (fst (loop_self v h self)) = AwaitingInput"
  proof -
    from that have "fst (loop v (flags self) h) = AwaitingInput" by (simp add: loop_self_eq)
    then have "loop v (flags self) (h @ [e])
       = (fst (loop v (flags self) [e]), snd (loop v (flags self) h) @ snd (loop v (flags self) [e]))"
      by (rule loop_append)
    then show ?thesis by (simp add: loop_self_eq del: loop.simps)
  qed
  have 2: "fst (get_response_self e' q self') = fst (get_response_self e q self)"
    if "serper_key e' = serper_key e \<and> http e' = http e \<and> today e' = today e \<and> llm e' = llm e"
  proof -
    from that have "search_web e' q = search_web e q"
      by (simp add: search_web_closed split: option.splits)
    then have a: "augment e' q = augment e q" by (simp add: augment_def)
    from that have "invoke e' = invoke e" by (simp add: invoke_def fun_eq_iff)
    with a have "get_response e' q = get_response e q" by (simp add: get_response_def)
    then show ?thesis by (simp add: g)
  qed
  have 3: "turn v s e =
          (Ret Continue,
           asked @ Print ''Processing your question...'' # snd (get_response e (strip l))
             @ snd (render s e (reply_text (llm e))) @ [Print (replicate 50 (CHR ''-''))])
        \<and> fst (get_response e (strip l)) = Ret (reply_text (llm e))
        \<and> length (filter is_Invoke (snd (turn v s e))) = 1"
    if h: "stdin e = Line l \<and> strip l \<noteq> [] \<and> lower (strip l) \<notin> set exit_words
        \<and> lower (strip l) \<noteq> ''voice'' \<and> uninterrupted e"
  proof -
    from h have un: "uninterrupted e" by simp
    from h have b: "body v s e = io_then (Ret (), asked) (process s e (strip l))"
      by (simp add: body_plain)
    have t: "turn v s e =
          (Ret Continue,
           asked @ Print ''Processing your question...'' # snd (get_response e (strip l))
             @ snd (render s e (reply_text (llm e))) @ [Print (replicate 50 (CHR ''-''))])"
      by (rule turn_Ret) (simp add: b process_uninterrupted [OF un])
    from un have g: "fst (get_response e (strip l)) = Ret (reply_text (llm e))"
      by (simp add: uninterrupted_def get_response_returns)
    from un have "length (filter is_Invoke (snd (get_response e (strip l)))) = 1"
      by (simp add: uninterrupted_def get_response_invoke_once)
    then have "length (filter is_Invoke (snd (turn v s e))) = 1"
      by (simp add: t asked_def render_no_invoke)
    with t g show ?thesis by simp
  qed
  have 4: "length (filter is_Invoke (snd (turn v s e))) \<le> 1" by (rule turn_invoke_count)
  have 5: "length (filter is_Invoke (snd (process s e u))) = 1" if "http e \<noteq> PostCtrlC"
    using that by (simp add: process_invoke_count get_response_invoke_once)
  from 1 2 3 4 5 g [of e q self] turn_self_eq [of v e self] loop_self_eq [of v es self]
  show ?thesis by blast
qed

theorem turns_are_independent_witness:
  "turn_self Base demo_env demo_bot = (turn Base (flags demo_bot) demo_env, demo_bot)
   \<and> loop_self Base [demo_env, silent_env] demo_bot
       = (loop Base (flags demo_bot) [demo_env, silent_env], demo_bot)
   \<and> fst (fst (loop_self Base [demo_env] demo_bot)) = AwaitingInput
   \<and> loop_self Base ([demo_env] @ [silent_env]) demo_bot
       = ((fst (fst (loop_self Base [silent_env] demo_bot)),
           snd (fst (loop_self Base [demo_env] demo_bot))
             @ snd (fst (loop_self Base [silent_env] demo_bot))), demo_bot)
   \<and> serper_key silent_env = serper_key demo_env \<and> http silent_env = http demo_env
   \<and> today silent_env = today demo_env \<and> llm silent_env = llm demo_env
   \<and> fst (get_response_self silent_env ''hello'' (demo_bot\<lparr>tts := False, chatbot := None\<rparr>))
       = fst (get_response_self demo_env ''hello'' demo_bot)
   \<and> http demo_env \<noteq> PostCtrlC
   \<and> length (filter is_Invoke (snd (process demo_session demo_env ''tell me a joke''))) = 1
   \<and> stdin demo_env = Line ''What is the weather today?''
   \<and> strip ''What is the weather today?'' \<noteq> []
   \<and> lower (strip ''What is the weather today?'') \<notin> set exit_words
   \<and> lower (strip ''What is the weather today?'') \<noteq> ''voice''
   \<and> uninterrupted demo_env
   \<and> fst (get_response demo_env (strip ''What is the weather today?'')) = Ret ''It is sunny today.''
   \<and> length (filter is_Invoke (snd (turn Conda demo_session demo_env))) = 1"
proof -
  note T = turns_are_independent
  have a: "fst (fst (loop_self Base [demo_env] demo_bot)) = AwaitingInput"
    by (simp add: loop_self_eq flags_demo_bot loop_single demo_continues del: loop.simps)
  have b: "serper_key silent_env = serper_key demo_env \<and> http silent_env = http demo_env
     \<and> today silent_env = today demo_env \<and> llm silent_env = llm demo_env"
    by (simp add: silent_env_def)
  have c1: "stdin demo_env = Line ''What is the weather today?''" by (simp add: demo_env_def)
  have c2: "strip ''What is the weather today?'' \<noteq> []" by code_simp
  have c3: "lower (strip ''What is the weather today?'') \<notin> set exit_words" by code_simp
  have c4: "lower (strip ''What is the weather today?'') \<noteq> ''voice''" by code_simp
  have c5: "uninterrupted demo_env" by (simp add: uninterrupted_def demo_env_def)
  have l: "reply_text (llm demo_env) = ''It is sunny today.''" by (simp add: demo_env_def)
  have 0: "turn_self Base demo_env demo_bot = (turn Base (flags demo_bot) demo_env, demo_bot)"
    by (rule T [where v = Base and e = demo_env and self = demo_bot, THEN conjunct1])
  have 00: "loop_self Base [demo_env, silent_env] demo_bot
       = (loop Base (flags demo_bot) [demo_env, silent_env], demo_bot)"
    by (rule T [where v = Base and es = "[demo_env, silent_env]" and self = demo_bot,
          THEN conjunct2, THEN conjunct1])
  have 1: "loop_self Base ([demo_env] @ [silent_env]) demo_bot
       = ((fst (fst (loop_self Base [silent_env] demo_bot)),
           snd (fst (loop_self Base [demo_env] demo_bot))
             @ snd (fst (loop_self Base [silent_env] demo_bot))), demo_bot)"
    by (rule T [where v = Base and h = "[demo_env]" and e = silent_env and self = demo_bot,
          THEN conjunct2, THEN conjunct2, THEN conjunct1, rule_format, OF a])
  have 2: "fst (get_response_self silent_env ''hello'' (demo_bot\<lparr>tts := False, chatbot := None\<rparr>))
       = fst (get_response_self demo_env ''hello'' demo_bot)"
    by (rule T [where e' = silent_env and e = demo_env and q = "''hello''" and self = demo_bot
            and self' = "demo_bot\<lparr>tts := False, chatbot := None\<rparr>",
          THEN conjunct2, THEN conjunct2, THEN conjunct2, THEN conjunct2, THEN conjunct1,
          rule_format, OF b])
  have d: "http demo_env \<noteq> PostCtrlC" by (simp add: demo_env_def)
  have 4: "length (filter is_Invoke (snd (process demo_session demo_env ''tell me a joke''))) = 1"
    by (rule T [where e = demo_env and s = demo_session and u = "''tell me a joke''",
          THEN conjunct2, THEN conjunct2, THEN conjunct2, THEN conjunct2, THEN conjunct2,
          THEN conjunct2, THEN conjunct1, rule_format, OF d])
  have 3: "fst (get_response demo_env (strip ''What is the weather today?'')) = Ret ''It is sunny today.''
     \<and> length (filter is_Invoke (snd (turn Conda demo_session demo_env))) = 1"
  proof -
    have pre: "stdin demo_env = Line ''What is the weather today?''
        \<and> strip ''What is the weather today?'' \<noteq> []
        \<and> lower (strip ''What is the weather today?'') \<notin> set exit_words
        \<and> lower (strip ''What is the weather today?'') \<noteq> ''voice'' \<and> uninterrupted demo_env"
      using c1 c2 c3 c4 c5 by blast
    note R = T [where v = Conda and s = demo_session and e = demo_env
          and l = "''What is the weather today?''",
        THEN conjunct2, THEN conjunct2, THEN conjunct2, THEN conjunct2, THEN conjunct2,
        THEN conjunct2, THEN conjunct2, rule_format, OF pre]
    have "fst (get_response demo_env (strip ''What is the weather today?'')) = Ret ''It is sunny today.''"
      using R [THEN conjunct2, THEN conjunct1] l by simp
    with R [THEN conjunct2, THEN conjunct2] show ?thesis by blast
  qed
  from a b c1 c2 c3 c4 c5 d 0 00 1 2 3 4 show ?thesis by blast
qed

text \<open>
  Claim C10. When the text captured after the \<open>voice\<close> command is itself an exit word or
  \<open>voice\<close>, it is not read as a command: the turn is the turn of that text as an
  utterance, handed unchanged to \<open>process\<close> and so to \<open>get_response\<close>, whose request to
  the language model carries it. Unless a Ctrl-C interrupts the answer, the turn
  continues the loop, which goes on with the next turn of the script.
\<close>

theorem captured_keyword_is_utterance:
  assumes "stdin e = Line l" and "lower (strip l) = ''voice''" and "voice_input s"
    and "listen v s e = (Ret (Some t), evs)"
    and "lower t \<in> set exit_words \<or> lower t = ''voice''"
  shows
   "turn v s e =
      try_except
        (io_then
           (Ret (), asked @ Print ''Switching to voice input - speak now...'' # evs
                     @ [Print (''Voice input received: '' @ t)])
           (process s e t))
        (handlers s e)
    \<and> (uninterrupted e \<longrightarrow>
         turn v s e =
           (Ret Continue,
            asked @ Print ''Switching to voice input - speak now...'' # evs
              @ Print (''Voice input received: '' @ t) # Print ''Processing your question...''
              # snd (get_response e t) @ snd (render s e (reply_text (llm e)))
              @ [Print (replicate 50 (CHR ''-''))])
         \<and> loop v s (e # es) = (fst (loop v s es), snd (turn v s e) @ snd (loop v s es)))
    \<and> (http e \<noteq> PostCtrlC \<longrightarrow>
         (\<exists>w. Invoke (system_message (today e)) (prompt_of t w) \<in> set (snd (turn v s e))))"
proof -
  from assms(5) have "lower t \<noteq> []" using exit_word_nonempty [of "lower t"] by auto
  then have hd: "heard (Some t)" by simp
  note th = turn_voice_heard [OF assms(1,2,3,4) hd]
  have 1: "turn v s e =
      try_except
        (io_then
           (Ret (), asked @ Print ''Switching to voice input - speak now...'' # evs
                     @ [Print (''Voice input received: '' @ t)])
           (process s e t))
        (handlers s e)"
    using th by simp
  have 2: "turn v s e =
           (Ret Continue,
            asked @ Print ''Switching to voice input - speak now...'' # evs
              @ Print (''Voice input received: '' @ t) # Print ''Processing your question...''
              # snd (get_response e t) @ snd (render s e (reply_text (llm e)))
              @ [Print (replicate 50 (CHR ''-''))])
         \<and> loop v s (e # es) = (fst (loop v s es), snd (turn v s e) @ snd (loop v s es))"
    if un: "uninterrupted e"
  proof -
    from turn_voice_heard_uninterrupted [OF assms(1,2,3,4) hd un]
    have t: "turn v s e =
           (Ret Continue,
            asked @ Print ''Switching to voice input - speak now...'' # evs
              @ Print (''Voice input received: '' @ t) # Print ''Processing your question...''
              # snd (get_response e t) @ snd (render s e (reply_text (llm e)))
              @ [Print (replicate 50 (CHR ''-''))])"
      by (simp add: process_uninterrupted [OF un])
    then have "fst (turn v s e) = Ret Continue" by simp
    from loop_continue [OF this] t show ?thesis by blast
  qed
  have 3: "\<exists>w. Invoke (system_message (today e)) (prompt_of t w) \<in> set (snd (turn v s e))"
    if h: "http e \<noteq> PostCtrlC"
  proof -
    from get_response_invoke_mem [OF h, of t] obtain w
      where w: "Invoke (system_message (today e)) (prompt_of t w) \<in> set (snd (get_response e t))"
      by blast
    with process_keeps_get_response [of e t s]
    have p: "Invoke (system_message (today e)) (prompt_of t w) \<in> set (snd (process s e t))"
      by blast
    have "set (snd (process s e t))
          \<subseteq> set (snd (io_then
                (Ret (), asked @ Print ''Switching to voice input - speak now...'' # evs
                          @ [Print (''Voice input received: '' @ t)])
                (process s e t)))"
      by auto
    also have "\<dots> \<subseteq> set (snd (turn v s e))"
      unfolding 1 by (rule try_except_events)
    finally show ?thesis using p by blast
  qed
  from 1 2 3 show ?thesis by blast
qed

theorem captured_keyword_is_utterance_witness:
  "stdin (voice_env '' quit '') = Line ''voice'' \<and> lower (strip ''voice'') = ''voice''
   \<and> voice_input demo_session
   \<and> listen Base demo_session (voice_env '' quit '')
       = (Ret (Some ''quit''),
          [Print (nl # ''Listening... (speak now or press Ctrl+C for text input)''), Capture 0,
           Print ''Converting speech to text...'', Print ''You said:  quit ''])
   \<and> lower ''quit'' \<in> set exit_words
   \<and> uninterrupted (voice_env '' quit '')
   \<and> fst (turn Base demo_session (voice_env '' quit '')) = Ret Continue
   \<and> fst (loop Base demo_session [voice_env '' quit '', demo_env]) = AwaitingInput
   \<and> Invoke (system_message ''November 03, 2026'') (prompt_of ''quit'' None)
       \<in> set (snd (turn Base demo_session (voice_env '' quit '')))"
proof -
  let ?e = "voice_env '' quit ''"
  have a: "stdin ?e = Line ''voice''" by (simp add: voice_env_def)
  have b: "lower (strip ''voice'') = ''voice''" by code_simp
  have c: "voice_input demo_session" by (simp add: demo_session_def)
  have d: "lower ''quit'' \<in> set exit_words" by code_simp
  then have d': "lower ''quit'' \<in> set exit_words \<or> lower ''quit'' = ''voice''" by simp
  have u: "uninterrupted ?e" by (simp add: uninterrupted_def voice_env_def demo_env_def)
  note T = captured_keyword_is_utterance [OF a b c listen_quit d', of "[demo_env]"]
  note Tu = T [THEN conjunct2, THEN conjunct1, rule_format, OF u]
  have t: "turn Base demo_session ?e =
           (Ret Continue,
            asked @ Print ''Switching to voice input - speak now...''
              # [Print (nl # ''Listening... (speak now or press Ctrl+C for text input)''), Capture 0,
                 Print ''Converting speech to text...'', Print ''You said:  quit '']
              @ Print (''Voice input received: '' @ ''quit'') # Print ''Processing your question...''
              # snd (get_response ?e ''quit'') @ snd (render demo_session ?e (reply_text (llm ?e)))
              @ [Print (replicate 50 (CHR ''-''))])"
    using Tu [THEN conjunct1] by simp
  have l: "loop Base demo_session [?e, demo_env]
            = (fst (loop Base demo_session [demo_env]),
               snd (turn Base demo_session ?e) @ snd (loop Base demo_session [demo_env]))"
    using Tu [THEN conjunct2] .
  from t have 1: "fst (turn Base demo_session ?e) = Ret Continue" by simp
  have "fst (loop Base demo_session [demo_env]) = AwaitingInput"
    by (simp add: loop_single demo_continues del: loop.simps)
  with l have 2: "fst (loop Base demo_session [?e, demo_env]) = AwaitingInput"
    by (simp del: loop.simps)
  have 3: "Invoke (system_message ''November 03, 2026'') (prompt_of ''quit'' None)
       \<in> set (snd (turn Base demo_session ?e))"
    by (simp add: t get_response_quit)
  from a b c listen_quit d u 1 2 3 show ?thesis by blast
qed

end
